theory Spec2Isabelle
  imports Complex_Main
begin

section \<open>The bounding-box watcher of the Meshing node\<close>

text \<open>
  This theory embeds the part of \<^verbatim>\<open>meshroom/nodes/aliceVision/Meshing.py\<close> that loads
  the automatically estimated bounding box: the thread class \<^verbatim>\<open>BoundingBoxThread\<close>
  (\<^verbatim>\<open>run\<close>, \<^verbatim>\<open>updateBoundingBox\<close>, \<^verbatim>\<open>stopRequest\<close>), the context manager
  \<^verbatim>\<open>boundingBoxMonitor\<close> and \<^verbatim>\<open>Meshing.processChunk\<close>.

  Conventions of the embedding:
  \<^item> Python exceptions are values of \<open>py_error\<close>; an operation that may raise returns a sum,
    \<open>Inl\<close> carrying the exception.
  \<^item> Mutation of the node persists when an exception is raised afterwards, so an operation
    returns the updated state \<^emph>\<open>and\<close> the sum.
  \<^item> The builtin \<^verbatim>\<open>float\<close> is a parameter \<open>flt :: string \<Rightarrow> 'f option\<close> (\<open>None\<close> for
    \<^verbatim>\<open>ValueError\<close>); \<open>'f\<close> is the type of floating-point values. Nothing is assumed of it.
  \<^item> Points in time (\<^verbatim>\<open>time.time()\<close>, \<^verbatim>\<open>os.path.getmtime\<close>) are real numbers; the only
    operation on them is the comparison \<open><\<close>.
  \<^item> What the thread sees of the outside (file system, clock, stop requests made by other
    threads, liveness of the parent process) is given by a \<open>world\<close>, indexed by the number
    of the check or wait that observes it.
  \<^item> The path of the file (line 604) is not modelled: a check is given what is at that path.
    The file does not change during one check, and opening and reading an existing file
    succeeds. Starting a thread succeeds.
\<close>

subsection \<open>Exceptions\<close>

datatype py_error =
    ValueError
  | IndexError
  | AttributeError
  | KeyboardInterrupt
  | SystemError
  | GeneratorExit
  | NoSuchProcess
  | RuntimeError

subsection \<open>The node and its bounding-box parameter group\<close>

text \<open>
  A \<^verbatim>\<open>desc.GroupAttribute\<close> value is an ordered collection of named attributes: an
  association list. \<^verbatim>\<open>boundingBox\<close> is a group of groups of \<^verbatim>\<open>FloatParam\<close>s.
\<close>

type_synonym 'f group = "(string \<times> 'f) list"

record 'f node =
  useBoundingBox :: bool
  boundingBox :: "(string \<times> 'f group) list"
  automaticBBoxValid :: bool

text \<open>The names of the descriptor (lines 64--150), in the order it declares them.\<close>

definition boundingBoxDesc :: "(string \<times> string list) list" where
  "boundingBoxDesc =
     [(''bboxTranslation'', [''x'', ''y'', ''z'']),
      (''bboxRotation'', [''x'', ''y'', ''z'']),
      (''bboxScale'', [''x'', ''y'', ''z''])]"

definition shape :: "(string \<times> 'f group) list \<Rightarrow> (string \<times> string list) list" where
  "shape bb = map (\<lambda>(g, vec). (g, map fst vec)) bb"

definition mkBoundingBox :: "'f list \<Rightarrow> (string \<times> 'f group) list" where
  "mkBoundingBox vs =
     [(''bboxTranslation'', [(''x'', vs ! 0), (''y'', vs ! 1), (''z'', vs ! 2)]),
      (''bboxRotation'', [(''x'', vs ! 3), (''y'', vs ! 4), (''z'', vs ! 5)]),
      (''bboxScale'', [(''x'', vs ! 6), (''y'', vs ! 7), (''z'', vs ! 8)])]"

subsection \<open>Reading the file: \<^verbatim>\<open>stream.read().strip().splitlines()\<close> and \<^verbatim>\<open>map(float, ...)\<close>\<close>

text \<open>
  A character stands for the code point of the same number (below 256).
  \<^verbatim>\<open>str.isspace\<close> holds of the code points 9--13, 28--32, 133 and 160; \<^verbatim>\<open>str.splitlines\<close>
  breaks at 10--13, 28--30 and 133, with CR LF counting as one break.
\<close>

definition isspace :: "char \<Rightarrow> bool" where
  "isspace c \<longleftrightarrow> c \<in> set [CHR 0x09, CHR 0x0A, CHR 0x0B, CHR 0x0C, CHR 0x0D,
                         CHR 0x1C, CHR 0x1D, CHR 0x1E, CHR 0x1F, CHR 0x20, CHR 0x85, CHR 0xA0]"

definition strip :: "string \<Rightarrow> string" where
  "strip s = rev (dropWhile isspace (rev (dropWhile isspace s)))"

definition islinebreak :: "char \<Rightarrow> bool" where
  "islinebreak c \<longleftrightarrow> c \<in> set [CHR 0x0A, CHR 0x0B, CHR 0x0C, CHR 0x0D,
                             CHR 0x1C, CHR 0x1D, CHR 0x1E, CHR 0x85]"

text \<open>\<open>splitlines_from acc s\<close>: the lines of \<open>s\<close>, the current line so far being \<open>rev acc\<close>.\<close>

fun splitlines_from :: "string \<Rightarrow> string \<Rightarrow> string list" where
  "splitlines_from acc [] = (if acc = [] then [] else [rev acc])"
| "splitlines_from acc [c] =
     (if islinebreak c then [rev acc] else [rev (c # acc)])"
| "splitlines_from acc (c # d # s) =
     (if c = CHR 0x0D \<and> d = CHR 0x0A then rev acc # splitlines_from [] s
      else if islinebreak c then rev acc # splitlines_from [] (d # s)
      else splitlines_from (c # acc) (d # s))"

definition splitlines :: "string \<Rightarrow> string list" where
  "splitlines s = splitlines_from [] s"

text \<open>\<^verbatim>\<open>list(map(float, tokens))\<close>: the whole list is converted, the first bad token raises.\<close>

fun map_float :: "(string \<Rightarrow> 'f option) \<Rightarrow> string list \<Rightarrow> py_error + 'f list" where
  "map_float flt [] = Inr []"
| "map_float flt (t # ts) =
     (case flt t of
        None \<Rightarrow> Inl ValueError
      | Some v \<Rightarrow> (case map_float flt ts of Inl e \<Rightarrow> Inl e | Inr vs \<Rightarrow> Inr (v # vs)))"

subsection \<open>The write loop of \<^verbatim>\<open>updateBoundingBox\<close>\<close>

text \<open>
  \<^verbatim>\<open>
  i = 0
  for vec in self.node.boundingBox.value:
      for x in vec.value:
          x.value = data[i]
          i += 1
  \<close>
  \<open>data[i]\<close> raises \<^verbatim>\<open>IndexError\<close> when \<open>i\<close> is not below \<open>len(data)\<close> (\<open>i\<close> is never negative).
  The leaves written before that keep their new values.
\<close>

fun write_vec :: "'f list \<Rightarrow> nat \<Rightarrow> 'f group \<Rightarrow> 'f group \<times> (py_error + nat)" where
  "write_vec data i [] = ([], Inr i)"
| "write_vec data i ((n, v) # xs) =
     (if i < length data then
        (case write_vec data (i + 1) xs of (xs', r) \<Rightarrow> ((n, data ! i) # xs', r))
      else ((n, v) # xs, Inl IndexError))"

fun write_bbox :: "'f list \<Rightarrow> nat \<Rightarrow> (string \<times> 'f group) list
    \<Rightarrow> (string \<times> 'f group) list \<times> (py_error + nat)" where
  "write_bbox data i [] = ([], Inr i)"
| "write_bbox data i ((g, vec) # gs) =
     (case write_vec data i vec of
        (vec', Inl e) \<Rightarrow> ((g, vec') # gs, Inl e)
      | (vec', Inr j) \<Rightarrow> (case write_bbox data j gs of (gs', r) \<Rightarrow> ((g, vec') # gs', r)))"

subsection \<open>The thread object\<close>

text \<open>
  \<^verbatim>\<open>startTime\<close> is an attribute that only \<^verbatim>\<open>run\<close> creates: \<open>None\<close> before.
  \<open>stopFlag\<close> is the state of the \<^verbatim>\<open>threading.Event\<close> \<^verbatim>\<open>_stopFlag\<close>.
\<close>

record 'f BoundingBoxThread =
  node :: "'f node"
  checkOnce :: bool
  stopFlag :: bool
  interval :: nat
  startTime :: "real option"

definition init :: "'f node \<Rightarrow> bool \<Rightarrow> 'f BoundingBoxThread" where
  "init nd once =
     \<lparr>node = nd, checkOnce = once, stopFlag = False, interval = 5, startTime = None\<rparr>"

definition stopRequest :: "'f BoundingBoxThread \<Rightarrow> 'f BoundingBoxThread" where
  "stopRequest th = th\<lparr>stopFlag := True\<rparr>"

subsection \<open>\<^verbatim>\<open>updateBoundingBox\<close>\<close>

text \<open>
  What a check finds at the path of \<^verbatim>\<open>boundingBox.txt\<close>: nothing
  (\<^verbatim>\<open>os.path.exists\<close> is false), or a file with its modification time and its text.
\<close>

record bbfile =
  mtime :: real
  content :: string

definition updateBoundingBox ::
  "(string \<Rightarrow> 'f option) \<Rightarrow> 'f BoundingBoxThread \<Rightarrow> bbfile option
     \<Rightarrow> 'f BoundingBoxThread \<times> (py_error + bool)" where
  "updateBoundingBox flt th obs =
     (case obs of
        None \<Rightarrow> (th, Inr False)
      | Some f \<Rightarrow>
          (case startTime th of
             None \<Rightarrow> (th, Inl AttributeError)
           | Some st \<Rightarrow>
               if mtime f < st then (th, Inr False)
               else
                 (case map_float flt (splitlines (strip (content f))) of
                    Inl e \<Rightarrow> (th, Inl e)
                  | Inr data \<Rightarrow>
                      (case write_bbox data 0 (boundingBox (node th)) of
                         (bb, Inl e) \<Rightarrow> (th\<lparr>node := (node th)\<lparr>boundingBox := bb\<rparr>\<rparr>, Inl e)
                       | (bb, Inr i) \<Rightarrow>
                           (th\<lparr>node := (node th)\<lparr>boundingBox := bb,
                                                 automaticBBoxValid := True\<rparr>\<rparr>,
                            Inr True)))))"

subsection \<open>The world seen by the thread\<close>

text \<open>
  \<^item> \<open>now\<close>: the value of \<^verbatim>\<open>time.time()\<close> when \<^verbatim>\<open>run\<close> begins;
  \<^item> \<open>fileAt i\<close>: what the \<open>i\<close>-th call of \<^verbatim>\<open>updateBoundingBox\<close> (counted from 0) finds on disk;
  \<^item> \<open>stopCalls k\<close>: how many calls of \<^verbatim>\<open>stopRequest\<close> other threads make on this thread
    object before the \<open>k\<close>-th \<^verbatim>\<open>_stopFlag.wait(self.interval)\<close> returns. The flag is read
    nowhere else, so a call made at any other moment is seen at the next wait;
  \<^item> \<open>parentRunning\<close>: the outcome of \<^verbatim>\<open>self.parentProc.is_running()\<close>.
\<close>

record world =
  now :: real
  fileAt :: "nat \<Rightarrow> bbfile option"
  stopCalls :: "nat \<Rightarrow> nat"
  parentRunning :: "py_error + bool"

text \<open>
  \<^verbatim>\<open>self._stopFlag.wait(self.interval)\<close>: returns whether the flag is set when the wait
  ends, after the calls of \<^verbatim>\<open>stopRequest\<close> that arrive during it.
\<close>

definition wait :: "world \<Rightarrow> nat \<Rightarrow> 'f BoundingBoxThread \<Rightarrow> 'f BoundingBoxThread \<times> bool" where
  "wait w k th = (let th' = (stopRequest ^^ stopCalls w k) th in (th', stopFlag th'))"

subsection \<open>\<^verbatim>\<open>run\<close>\<close>

text \<open>
  The calls the thread makes are logged in program order, so that statements about how
  many checks are made, and when, can be read off the result.
\<close>

datatype call = UpdateCall | WaitTimeout | WaitStopped | IsRunningCall

text \<open>
  How the thread ends: its last state, the exception that leaves \<^verbatim>\<open>run\<close> if any, and
  the log. The handler \<^verbatim>\<open>except (KeyboardInterrupt, SystemError, GeneratorExit,
  psutil.NoSuchProcess): pass\<close> swallows four kinds of exception; any other leaves \<^verbatim>\<open>run\<close>.
\<close>

record 'f run_result =
  final :: "'f BoundingBoxThread"
  uncaught :: "py_error option"
  calls :: "call list"

definition handler :: "py_error \<Rightarrow> py_error option" where
  "handler e =
     (if e \<in> {KeyboardInterrupt, SystemError, GeneratorExit, NoSuchProcess} then None
      else Some e)"

datatype 'f step = Done "'f run_result" | Continue "'f BoundingBoxThread"

text \<open>One pass through the body of \<^verbatim>\<open>while True\<close>, the \<open>k\<close>-th (from 0).\<close>

definition iteration ::
  "(string \<Rightarrow> 'f option) \<Rightarrow> world \<Rightarrow> nat \<Rightarrow> 'f BoundingBoxThread \<Rightarrow> 'f step" where
  "iteration flt w k th =
     (case updateBoundingBox flt th (fileAt w k) of
        (th1, Inl e) \<Rightarrow> Done \<lparr>final = th1, uncaught = handler e, calls = [UpdateCall]\<rparr>
      | (th1, Inr updated) \<Rightarrow>
          if updated \<or> checkOnce th1 then
            Done \<lparr>final = th1, uncaught = None, calls = [UpdateCall]\<rparr>
          else
            (case wait w k th1 of
               (th2, False) \<Rightarrow> Continue th2
             | (th2, True) \<Rightarrow>
                 (case parentRunning w of
                    Inl e \<Rightarrow>
                      Done \<lparr>final = th2, uncaught = handler e,
                            calls = [UpdateCall, WaitStopped, IsRunningCall]\<rparr>
                  | Inr False \<Rightarrow>
                      Done \<lparr>final = th2, uncaught = None,
                            calls = [UpdateCall, WaitStopped, IsRunningCall]\<rparr>
                  | Inr True \<Rightarrow>
                      (case updateBoundingBox flt th2 (fileAt w (Suc k)) of
                         (th3, Inl e) \<Rightarrow>
                           Done \<lparr>final = th3, uncaught = handler e,
                                 calls = [UpdateCall, WaitStopped, IsRunningCall, UpdateCall]\<rparr>
                       | (th3, Inr _) \<Rightarrow>
                           Done \<lparr>final = th3, uncaught = None,
                                 calls = [UpdateCall, WaitStopped, IsRunningCall, UpdateCall]\<rparr>))))"

text \<open>
  The loop. It has no bound on the number of iterations: \<open>None\<close> is the run that never
  leaves it. \<open>lg\<close> is the log of the iterations before the \<open>k\<close>-th.
\<close>

partial_function (option) run_loop ::
  "(string \<Rightarrow> 'f option) \<Rightarrow> world \<Rightarrow> nat \<Rightarrow> call list \<Rightarrow> 'f BoundingBoxThread
     \<Rightarrow> 'f run_result option" where
  "run_loop flt w k lg th =
     (case iteration flt w k th of
        Done r \<Rightarrow> Some (r\<lparr>calls := lg @ calls r\<rparr>)
      | Continue th' \<Rightarrow> run_loop flt w (Suc k) (lg @ [UpdateCall, WaitTimeout]) th')"

declare run_loop.simps [code]

text \<open>\<^verbatim>\<open>self.startTime = time.time() if not self.checkOnce else -1\<close>, then the loop.\<close>

definition run ::
  "(string \<Rightarrow> 'f option) \<Rightarrow> world \<Rightarrow> 'f BoundingBoxThread \<Rightarrow> 'f run_result option" where
  "run flt w th =
     run_loop flt w 0 [] (th\<lparr>startTime := Some (if \<not> checkOnce th then now w else - 1)\<rparr>)"

subsection \<open>The context manager \<^verbatim>\<open>boundingBoxMonitor\<close>\<close>

text \<open>
  The operation wrapped by the \<^verbatim>\<open>with\<close> statement is outside this file: the model takes
  its outcome, a returned value or a raised exception (a cancellation is the exception
  \<^verbatim>\<open>KeyboardInterrupt\<close> or \<^verbatim>\<open>GeneratorExit\<close>).
\<close>

datatype 'r outcome = Returned 'r | Raised py_error

datatype guard_event = ThreadStarted | WrappedOperation | StopRequestCalled | JoinReturned

text \<open>
  The state of the generator: its local variable \<^verbatim>\<open>bboxThread\<close>, the node it was given,
  how the thread ended once it has been joined, and the order of what has happened.
\<close>

record 'f guard =
  bboxThread :: "'f BoundingBoxThread option"
  gnode :: "'f node"
  watcher :: "'f run_result option"
  trace :: "guard_event list"

text \<open>
  \<^verbatim>\<open>try: A finally: B\<close>: \<open>B\<close> runs whatever the outcome of \<open>A\<close>; the outcome of \<open>A\<close> is
  passed on unless \<open>B\<close> itself raises. \<open>None\<close>: \<open>B\<close> does not return.
\<close>

definition try_finally ::
  "('s \<Rightarrow> 's \<times> 'r outcome) \<Rightarrow> ('s \<Rightarrow> ('s \<times> unit outcome) option) \<Rightarrow> 's
     \<Rightarrow> ('s \<times> 'r outcome) option" where
  "try_finally blk fin s =
     (case blk s of
        (s1, out) \<Rightarrow>
          (case fin s1 of
             None \<Rightarrow> None
           | Some (s2, Returned _) \<Rightarrow> Some (s2, out)
           | Some (s2, Raised e) \<Rightarrow> Some (s2, Raised e)))"

text \<open>
  Lines 562--565: create and start the thread unless the bounding box is set by hand, then
  \<^verbatim>\<open>yield\<close>: the wrapped operation runs and ends with \<open>out\<close>.
\<close>

definition try_block :: "bool \<Rightarrow> 'r outcome \<Rightarrow> 'f guard \<Rightarrow> 'f guard \<times> 'r outcome" where
  "try_block once out s =
     (let s1 = (if \<not> useBoundingBox (gnode s)
                then s\<lparr>bboxThread := Some (init (gnode s) once),
                       trace := trace s @ [ThreadStarted]\<rparr>
                else s)
      in (s1\<lparr>trace := trace s1 @ [WrappedOperation]\<rparr>, out))"

text \<open>
  The thread started at line 564 runs while the wrapped operation does. \<open>d\<close> says when the
  wrapped operation ends, in the thread's time: the call of \<^verbatim>\<open>stopRequest\<close> at line 568
  arrives during the thread's \<open>d\<close>-th wait, if the thread gets that far.
\<close>

definition teardown :: "world \<Rightarrow> nat \<Rightarrow> world" where
  "teardown w d = w\<lparr>stopCalls := (\<lambda>k. stopCalls w k + (if k = d then 1 else 0))\<rparr>"

text \<open>
  Lines 567--569. \<^verbatim>\<open>join\<close> returns when \<^verbatim>\<open>run\<close> has ended, normally or by an exception
  (which stays in the thread); it does not return if \<^verbatim>\<open>run\<close> does not.
\<close>

definition finally_block ::
  "(string \<Rightarrow> 'f option) \<Rightarrow> world \<Rightarrow> nat \<Rightarrow> 'f guard \<Rightarrow> ('f guard \<times> unit outcome) option" where
  "finally_block flt w d s =
     (case bboxThread s of
        None \<Rightarrow> Some (s, Returned ())
      | Some th \<Rightarrow>
          (case run flt (teardown w d) th of
             None \<Rightarrow> None
           | Some r \<Rightarrow>
               Some (s\<lparr>bboxThread := Some (stopRequest (final r)),
                       gnode := node (final r),
                       watcher := Some r,
                       trace := trace s @ [StopRequestCalled, JoinReturned]\<rparr>,
                     Returned ())))"

definition boundingBoxMonitor ::
  "(string \<Rightarrow> 'f option) \<Rightarrow> world \<Rightarrow> nat \<Rightarrow> 'f node \<Rightarrow> bool \<Rightarrow> 'r outcome
     \<Rightarrow> ('f guard \<times> 'r outcome) option" where
  "boundingBoxMonitor flt w d nd once out =
     try_finally (try_block once out) (finally_block flt w d)
       \<lparr>bboxThread = None, gnode = nd, watcher = None, trace = []\<rparr>"

text \<open>
  \<^verbatim>\<open>Meshing.processChunk\<close> (lines 536--538):
  \<^verbatim>\<open>with boundingBoxMonitor(chunk.node): super(Meshing, self).processChunk(chunk)\<close>.
  The method has no \<^verbatim>\<open>return\<close> statement: what the wrapped call returns is dropped and
  the method returns \<^verbatim>\<open>None\<close>; an exception of the wrapped call is passed on.
\<close>

fun discard :: "'r outcome \<Rightarrow> unit outcome" where
  "discard (Returned v) = Returned ()"
| "discard (Raised e) = Raised e"

definition processChunk ::
  "(string \<Rightarrow> 'f option) \<Rightarrow> world \<Rightarrow> nat \<Rightarrow> 'f node \<Rightarrow> 'r outcome
     \<Rightarrow> ('f guard \<times> unit outcome) option" where
  "processChunk flt w d nd out =
     (case boundingBoxMonitor flt w d nd False out of
        None \<Rightarrow> None
      | Some (g, res) \<Rightarrow> Some (g, discard res))"

subsection \<open>Notions used to state the properties\<close>

text \<open>
  A check finds the file ready when it exists and its modification time is not below the
  baseline \<open>st\<close> (the negation of the test at line 605).
\<close>

definition ready :: "real \<Rightarrow> bbfile option \<Rightarrow> bool" where
  "ready st obs = (case obs of None \<Rightarrow> False | Some f \<Rightarrow> st \<le> mtime f)"

text \<open>The first \<open>n\<close> checks find no file ready and the first \<open>n\<close> waits time out.\<close>

primrec quiet :: "world \<Rightarrow> real \<Rightarrow> nat \<Rightarrow> bool" where
  "quiet w st 0 = True"
| "quiet w st (Suc n) = (quiet w st n \<and> \<not> ready st (fileAt w n) \<and> stopCalls w n = 0)"

text \<open>The baseline that \<^verbatim>\<open>run\<close> stores in \<^verbatim>\<open>startTime\<close> (line 582).\<close>

definition baseline :: "world \<Rightarrow> 'f BoundingBoxThread \<Rightarrow> real" where
  "baseline w th = (if \<not> checkOnce th then now w else - 1)"

text \<open>
  Which checks a run makes. A check that finds the file ready ends the run (the file is
  applied or an exception is raised), so a run gets to a later check only past checks that
  found no file ready.

  \<open>makes_loop_check w th n\<close>: the run of \<open>th\<close> in \<open>w\<close> makes an \<open>n\<close>-th check at the head of its
  loop. The first check is always made; a later one in continuous mode, when the flag was
  not set at the start, the \<open>n\<close> checks before found no file ready and the \<open>n\<close> waits
  timed out.

  \<open>makes_final_check w th n\<close>: the \<open>n\<close>-th check is the final check of line 592: the run got
  to the check before it, which found no file ready, the wait after that returned true
  (the flag was set at the start or a stop request arrived), and the parent is alive.
\<close>

definition makes_loop_check :: "world \<Rightarrow> 'f BoundingBoxThread \<Rightarrow> nat \<Rightarrow> bool" where
  "makes_loop_check w th n \<longleftrightarrow>
     n = 0 \<or> (\<not> checkOnce th \<and> \<not> stopFlag th \<and> quiet w (baseline w th) n)"

definition makes_final_check :: "world \<Rightarrow> 'f BoundingBoxThread \<Rightarrow> nat \<Rightarrow> bool" where
  "makes_final_check w th n \<longleftrightarrow>
     (case n of
        0 \<Rightarrow> False
      | Suc k \<Rightarrow>
          makes_loop_check w th k \<and> \<not> checkOnce th
          \<and> \<not> ready (baseline w th) (fileAt w k)
          \<and> (stopFlag th \<or> 0 < stopCalls w k)
          \<and> parentRunning w = Inr True)"

text \<open>
  The thread object when it makes its \<open>n\<close>-th check, and the calls it has made before:
  before a final check the flag is set and the last wait has returned true.
\<close>

definition at_check :: "world \<Rightarrow> 'f BoundingBoxThread \<Rightarrow> nat \<Rightarrow> 'f BoundingBoxThread" where
  "at_check w th n =
     (if makes_final_check w th n then stopRequest (th\<lparr>startTime := Some (baseline w th)\<rparr>)
      else th\<lparr>startTime := Some (baseline w th)\<rparr>)"

definition calls_before :: "world \<Rightarrow> 'f BoundingBoxThread \<Rightarrow> nat \<Rightarrow> call list" where
  "calls_before w th n =
     (if makes_final_check w th n
      then concat (replicate (n - 1) [UpdateCall, WaitTimeout])
             @ [UpdateCall, WaitStopped, IsRunningCall]
      else concat (replicate n [UpdateCall, WaitTimeout]))"

text \<open>The number of leaf parameters of a group of groups.\<close>

definition leaves :: "(string \<times> 'f group) list \<Rightarrow> nat" where
  "leaves bb = sum_list (map (\<lambda>(g, vec). length vec) bb)"

text \<open>Two worlds that differ at most in how often \<^verbatim>\<open>stopRequest\<close> is called at a time.\<close>

definition same_stops :: "world \<Rightarrow> world \<Rightarrow> bool" where
  "same_stops w' w \<longleftrightarrow>
     now w' = now w \<and> fileAt w' = fileAt w \<and> parentRunning w' = parentRunning w \<and>
     (\<forall>k. (stopCalls w' k = 0) = (stopCalls w k = 0))"

text \<open>The world where every call of \<^verbatim>\<open>stopRequest\<close> is made \<open>m + 1\<close> times in a row.\<close>

definition repeated :: "nat \<Rightarrow> world \<Rightarrow> world" where
  "repeated m w = w\<lparr>stopCalls := (\<lambda>k. Suc m * stopCalls w k)\<rparr>"

text \<open>
  The final checks of a run: the calls of \<^verbatim>\<open>updateBoundingBox\<close> made after a wait has
  returned true.
\<close>

definition final_checks :: "call list \<Rightarrow> nat" where
  "final_checks cs =
     length (filter (\<lambda>c. c = UpdateCall) (dropWhile (\<lambda>c. c \<noteq> WaitStopped) cs))"

subsection \<open>Concrete data for the examples\<close>

text \<open>
  The examples need an instance of the parameter \<open>flt\<close>. \<open>float_of_digits\<close> is not
  \<^verbatim>\<open>float\<close>: it reads a nonempty string of ASCII digits as an integer and rejects every
  other string, also those with a sign, a point or an exponent, which \<^verbatim>\<open>float\<close> accepts.
  The two agree on strings of at most 15 digits, whose values a double holds exactly, and
  on \<open>''x''\<close>, where \<^verbatim>\<open>float\<close> raises \<^verbatim>\<open>ValueError\<close>. The examples apply it to strings of
  one or two digits and to \<open>''x''\<close> only; no general statement depends on it.
\<close>

fun digits_value :: "nat \<Rightarrow> string \<Rightarrow> nat option" where
  "digits_value acc [] = Some acc"
| "digits_value acc (c # cs) =
     (if c \<in> set ''0123456789'' then digits_value (10 * acc + (of_char c - 48)) cs
      else None)"

definition float_of_digits :: "string \<Rightarrow> int option" where
  "float_of_digits s = (if s = [] then None else map_option int (digits_value 0 s))"

text \<open>The node as the descriptor initialises it: the defaults of lines 54--150.\<close>

definition defaultNode :: "int node" where
  "defaultNode =
     \<lparr>useBoundingBox = False,
      boundingBox = mkBoundingBox [0, 0, 0, 0, 0, 0, 1, 1, 1],
      automaticBBoxValid = False\<rparr>"

text \<open>A world where nothing happens: no file, no stop request, the parent alive.\<close>

definition idle :: world where
  "idle = \<lparr>now = 100, fileAt = (\<lambda>i. None), stopCalls = (\<lambda>k. 0), parentRunning = Inr True\<rparr>"

definition nine :: string where
  "nine = ''3\<newline>1\<newline>4\<newline>10\<newline>20\<newline>30\<newline>2\<newline>2\<newline>5\<newline>''"

definition eight :: string where
  "eight = ''3\<newline>1\<newline>4\<newline>10\<newline>20\<newline>30\<newline>2\<newline>2\<newline>''"

definition ten :: string where
  "ten = ''3\<newline>1\<newline>4\<newline>10\<newline>20\<newline>30\<newline>2\<newline>2\<newline>5\<newline>7\<newline>''"

definition bad :: string where
  "bad = ''3\<newline>1\<newline>4\<newline>10\<newline>x\<newline>30\<newline>2\<newline>2\<newline>5\<newline>''"

text \<open>
  The first two lines of \<open>nine\<close>: what a check reads when the file is being written. In
  \<open>midwrite\<close> the first check finds that, and every later check would find the complete
  file; both are newer than the baseline.
\<close>

definition two :: string where
  "two = ''3\<newline>1\<newline>''"

definition midwrite :: world where
  "midwrite =
     idle\<lparr>fileAt := (\<lambda>i. if i = 0 then Some \<lparr>mtime = 101, content = two\<rparr>
                          else Some \<lparr>mtime = 102, content = nine\<rparr>)\<rparr>"

text \<open>A world where the file \<open>f\<close> is there from the \<open>n\<close>-th check on.\<close>

definition appears :: "nat \<Rightarrow> bbfile \<Rightarrow> world" where
  "appears n f = idle\<lparr>fileAt := (\<lambda>i. if i < n then None else Some f)\<rparr>"

text \<open>
  The world \<open>w\<close> with one call of \<^verbatim>\<open>stopRequest\<close>, during the \<open>d\<close>-th wait, and the parent
  process alive or not.
\<close>

definition stopsAt :: "nat \<Rightarrow> bool \<Rightarrow> world \<Rightarrow> world" where
  "stopsAt d alive w =
     w\<lparr>stopCalls := (\<lambda>k. if k = d then 1 else 0), parentRunning := Inr alive\<rparr>"

section \<open>Properties\<close>

subsection \<open>Auxiliary facts\<close>


lemma tokens_nine: "splitlines (strip nine) = [''3'', ''1'', ''4'', ''10'', ''20'', ''30'', ''2'', ''2'', ''5'']"
  by (simp add: nine_def splitlines_def strip_def isspace_def islinebreak_def)

lemma floats_nine: "map_float float_of_digits (splitlines (strip nine)) = Inr [3, 1, 4, 10, 20, 30, 2, 2, 5]"
  by (simp add: tokens_nine float_of_digits_def)

lemma tokens_bad: "splitlines (strip bad) = [''3'', ''1'', ''4'', ''10'', ''x'', ''30'', ''2'', ''2'', ''5'']"
  by (simp add: bad_def splitlines_def strip_def isspace_def islinebreak_def)

lemma floats_ten: "map_float float_of_digits (splitlines (strip ten)) = Inr [3, 1, 4, 10, 20, 30, 2, 2, 5, 7]"
  by (simp add: ten_def splitlines_def strip_def isspace_def islinebreak_def float_of_digits_def)

lemma shape_default: "shape (boundingBox defaultNode) = boundingBoxDesc"
  by (simp add: shape_def defaultNode_def mkBoundingBox_def boundingBoxDesc_def)

lemma write_bbox_desc:
  assumes "shape bb = boundingBoxDesc" "9 \<le> length data"
  shows "write_bbox data 0 bb = (mkBoundingBox data, Inr 9)"
  using assms
  by (auto simp: shape_def boundingBoxDesc_def mkBoundingBox_def map_eq_Cons_conv eval_nat_numeral)

lemma map_float_bad: "t \<in> set ts \<Longrightarrow> flt t = None \<Longrightarrow> map_float flt ts = Inl ValueError"
  by (induction ts) (auto split: option.splits sum.splits)

lemma write_vec_snd:
  "i \<le> length data \<Longrightarrow> snd (write_vec data i xs) =
     (if i + length xs \<le> length data then Inr (i + length xs) else Inl IndexError)"
proof (induction xs arbitrary: i)
  case Nil
  then show ?case by simp
next
  case (Cons a xs)
  obtain n v where a: "a = (n, v)" by (cases a)
  show ?case
  proof (cases "i < length data")
    case True
    then have "Suc i \<le> length data" by simp
    from Cons.IH [OF this] a True show ?thesis
      by (auto split: prod.splits)
  next
    case False
    with a show ?thesis by simp
  qed
qed

lemma write_bbox_snd:
  "i \<le> length data \<Longrightarrow> snd (write_bbox data i bb) =
     (if i + leaves bb \<le> length data then Inr (i + leaves bb) else Inl IndexError)"
proof (induction bb arbitrary: i)
  case Nil
  then show ?case by (simp add: leaves_def)
next
  case (Cons a bb)
  obtain g vec where a: "a = (g, vec)" by (cases a)
  obtain vec' r where wv: "write_vec data i vec = (vec', r)" by (cases "write_vec data i vec")
  have r: "r = (if i + length vec \<le> length data then Inr (i + length vec) else Inl IndexError)"
    using write_vec_snd [of i data vec] wv Cons.prems by simp
  show ?case
  proof (cases "i + length vec \<le> length data")
    case True
    with r have "r = Inr (i + length vec)" by simp
    with a wv Cons.IH [OF True] show ?thesis
      by (auto simp: leaves_def split: prod.splits)
  next
    case False
    with r have "r = Inl IndexError" by simp
    with a wv False show ?thesis by (auto simp: leaves_def)
  qed
qed

lemma leaves_desc: "shape bb = boundingBoxDesc \<Longrightarrow> leaves bb = 9"
  by (auto simp: shape_def boundingBoxDesc_def leaves_def map_eq_Cons_conv)

lemma update_not_ready:
  "startTime th = Some st \<Longrightarrow> \<not> ready st obs \<Longrightarrow> updateBoundingBox flt th obs = (th, Inr False)"
  by (auto simp: updateBoundingBox_def ready_def split: option.splits)

lemma update_applied:
  assumes "shape (boundingBox (node th)) = boundingBoxDesc" "startTime th = Some st"
    "st \<le> mtime f" "map_float flt (splitlines (strip (content f))) = Inr data" "9 \<le> length data"
  shows "updateBoundingBox flt th (Some f) =
     (th\<lparr>node := (node th)\<lparr>boundingBox := mkBoundingBox data, automaticBBoxValid := True\<rparr>\<rparr>, Inr True)"
  using assms by (simp add: updateBoundingBox_def write_bbox_desc)

lemma update_bad_token:
  assumes "startTime th = Some st" "st \<le> mtime f"
    "t \<in> set (splitlines (strip (content f)))" "flt t = None"
  shows "updateBoundingBox flt th (Some f) = (th, Inl ValueError)"
  using assms map_float_bad [of t _ flt] by (simp add: updateBoundingBox_def)

lemma update_short:
  assumes "shape (boundingBox (node th)) = boundingBoxDesc" "startTime th = Some st"
    "st \<le> mtime f" "map_float flt (splitlines (strip (content f))) = Inr data" "length data < 9"
  shows "updateBoundingBox flt th (Some f) =
     (th\<lparr>node := (node th)\<lparr>boundingBox :=
         fst (write_bbox data 0 (boundingBox (node th)))\<rparr>\<rparr>, Inl IndexError)"
proof -
  obtain bb r where w: "write_bbox data 0 (boundingBox (node th)) = (bb, r)"
    by (cases "write_bbox data 0 (boundingBox (node th))")
  have "r = Inl IndexError"
    using write_bbox_snd [of 0 data "boundingBox (node th)"] w assms(1,5)
    by (simp add: leaves_desc)
  with w assms show ?thesis by (simp add: updateBoundingBox_def)
qed


lemma run_loop_Done:
  "iteration flt w k th = Done r \<Longrightarrow> run_loop flt w k lg th = Some (r\<lparr>calls := lg @ calls r\<rparr>)"
  by (subst run_loop.simps) simp

lemma run_loop_Continue:
  "iteration flt w k th = Continue th' \<Longrightarrow>
     run_loop flt w k lg th = run_loop flt w (Suc k) (lg @ [UpdateCall, WaitTimeout]) th'"
  by (subst run_loop.simps) simp

lemma wait_flag:
  "wait w k th = (if stopCalls w k = 0 then (th, stopFlag th) else (stopRequest th, True))"
proof -
  have "(stopRequest ^^ n) th = (if n = 0 then th else stopRequest th)" for n
    by (induction n) (auto simp: stopRequest_def)
  then show ?thesis by (simp add: wait_def Let_def stopRequest_def)
qed

lemma iteration_not_ready:
  assumes "startTime th = Some st" "\<not> checkOnce th" "\<not> stopFlag th"
    "\<not> ready st (fileAt w k)" "stopCalls w k = 0"
  shows "iteration flt w k th = Continue th"
  using assms by (simp add: iteration_def update_not_ready wait_flag)

lemma run_loop_skip:
  assumes "startTime th = Some st" "\<not> checkOnce th" "\<not> stopFlag th"
    "\<forall>i<n. \<not> ready st (fileAt w (k + i)) \<and> stopCalls w (k + i) = 0"
  shows "run_loop flt w k lg th =
     run_loop flt w (k + n) (lg @ concat (replicate n [UpdateCall, WaitTimeout])) th"
  using assms(4)
proof (induction n arbitrary: k lg)
  case 0
  then show ?case by simp
next
  case (Suc n)
  have "iteration flt w k th = Continue th"
    using assms(1-3) Suc.prems by (intro iteration_not_ready) auto
  then have "run_loop flt w k lg th = run_loop flt w (Suc k) (lg @ [UpdateCall, WaitTimeout]) th"
    by (rule run_loop_Continue)
  also have "\<dots> = run_loop flt w (Suc k + n)
      ((lg @ [UpdateCall, WaitTimeout]) @ concat (replicate n [UpdateCall, WaitTimeout])) th"
    using Suc.prems by (intro Suc.IH) (auto simp: less_Suc_eq_0_disj)
  finally show ?case by simp
qed

lemma iteration_Continue_D:
  assumes "iteration flt w k th = Continue th'"
  shows "stopCalls w k = 0 \<and> \<not> stopFlag th'"
  using assms
  by (auto simp: iteration_def wait_flag split: prod.splits sum.splits if_splits bool.splits)

lemma iteration_Done_calls:
  assumes "iteration flt w k th = Done r"
  shows "calls r \<in> {[UpdateCall], [UpdateCall, WaitStopped, IsRunningCall],
                    [UpdateCall, WaitStopped, IsRunningCall, UpdateCall]}"
  using assms
  by (auto simp: iteration_def wait_flag split: prod.splits sum.splits if_splits bool.splits)

lemma run_loop_stops:
  assumes "0 < stopCalls w d" "k \<le> d"
  shows "\<exists>r. run_loop flt w k lg th = Some r"
  using assms(2)
proof (induction "d - k" arbitrary: k lg th)
  case 0
  then have kd: "k = d" by simp
  show ?case
  proof (cases "iteration flt w k th")
    case (Done r)
    then show ?thesis by (simp add: run_loop_Done)
  next
    case (Continue th')
    from iteration_Continue_D [OF this] assms(1) kd show ?thesis by simp
  qed
next
  case (Suc n)
  show ?case
  proof (cases "iteration flt w k th")
    case (Done r)
    then show ?thesis by (simp add: run_loop_Done)
  next
    case (Continue th')
    have "\<exists>r. run_loop flt w (Suc k) (lg @ [UpdateCall, WaitTimeout]) th' = Some r"
      using Suc.hyps(2) Suc.prems by (intro Suc.hyps(1)) auto
    with Continue show ?thesis by (simp add: run_loop_Continue)
  qed
qed


lemmas run_loop_induct = run_loop.raw_induct [rotated -1, consumes 1, case_names step]

lemma wait_same_stops: "same_stops w' w \<Longrightarrow> wait w' k th = wait w k th"
  by (simp add: wait_flag same_stops_def)

lemma iteration_same_stops:
  assumes "same_stops w' w"
  shows "iteration flt w' k th = iteration flt w k th"
proof -
  have a: "fileAt w' = fileAt w" and b: "parentRunning w' = parentRunning w"
    using assms by (simp_all add: same_stops_def)
  have c: "wait w' k = (wait w k :: 'a BoundingBoxThread \<Rightarrow> _)"
    using wait_same_stops [OF assms] by (intro ext)
  show ?thesis unfolding iteration_def a b c by (rule refl)
qed

lemma run_loop_same_stops_Some:
  assumes "run_loop flt w' k lg th = Some r" "same_stops w' w"
  shows "run_loop flt w k lg th = Some r"
  using assms
proof (induction flt w' k lg th r rule: run_loop_induct)
  case (step loop flt w' k lg th r)
  show ?case
  proof (cases "iteration flt w' k th")
    case (Done r0)
    with step(2) have "r = r0\<lparr>calls := lg @ calls r0\<rparr>" by simp
    moreover from Done step(3) have "iteration flt w k th = Done r0"
      by (simp add: iteration_same_stops)
    ultimately show ?thesis by (simp add: run_loop_Done)
  next
    case (Continue th')
    with step(2) have "loop flt w' (Suc k) (lg @ [UpdateCall, WaitTimeout]) th' = Some r" by simp
    from step(1) [OF this step(3)]
    have "run_loop flt w (Suc k) (lg @ [UpdateCall, WaitTimeout]) th' = Some r" .
    moreover from Continue step(3) have "iteration flt w k th = Continue th'"
      by (simp add: iteration_same_stops)
    ultimately show ?thesis by (simp add: run_loop_Continue)
  qed
qed

lemma same_stops_sym: "same_stops w' w \<Longrightarrow> same_stops w w'"
  by (simp add: same_stops_def)

lemma run_loop_same_stops:
  assumes "same_stops w' w"
  shows "run_loop flt w' k lg th = run_loop flt w k lg th"
proof (cases "run_loop flt w' k lg th")
  case None
  show ?thesis
  proof (cases "run_loop flt w k lg th")
    case None
    with \<open>run_loop flt w' k lg th = None\<close> show ?thesis by simp
  next
    case (Some r)
    from run_loop_same_stops_Some [OF Some same_stops_sym [OF assms]] None
    show ?thesis by simp
  qed
next
  case (Some r)
  from run_loop_same_stops_Some [OF Some assms] Some show ?thesis by simp
qed

lemma run_loop_calls:
  assumes "run_loop flt w k lg th = Some r"
  shows "\<exists>n post. calls r = lg @ concat (replicate n [UpdateCall, WaitTimeout]) @ post \<and>
           post \<in> {[UpdateCall], [UpdateCall, WaitStopped, IsRunningCall],
                    [UpdateCall, WaitStopped, IsRunningCall, UpdateCall]}"
  using assms
proof (induction flt w k lg th r rule: run_loop_induct)
  case (step loop flt w k lg th r)
  show ?case
  proof (cases "iteration flt w k th")
    case (Done r0)
    with step(2) have "calls r = lg @ concat (replicate 0 [UpdateCall, WaitTimeout]) @ calls r0"
      by auto
    with iteration_Done_calls [OF Done] show ?thesis by blast
  next
    case (Continue th')
    with step(2) have "loop flt w (Suc k) (lg @ [UpdateCall, WaitTimeout]) th' = Some r" by simp
    from step(1) [OF this] obtain n post where
      c: "calls r = (lg @ [UpdateCall, WaitTimeout]) @ concat (replicate n [UpdateCall, WaitTimeout]) @ post"
      and p: "post \<in> {[UpdateCall], [UpdateCall, WaitStopped, IsRunningCall],
                    [UpdateCall, WaitStopped, IsRunningCall, UpdateCall]}" by blast
    from c have "calls r = lg @ concat (replicate (Suc n) [UpdateCall, WaitTimeout]) @ post"
      by simp
    with p show ?thesis by blast
  qed
qed

lemma final_checks_le_1:
  assumes "run flt w th = Some r"
  shows "final_checks (calls r) \<le> 1"
proof -
  from assms have "run_loop flt w 0 []
      (th\<lparr>startTime := Some (if \<not> checkOnce th then now w else - 1)\<rparr>) = Some r"
    by (simp add: run_def)
  from run_loop_calls [OF this] obtain n post where
    c: "calls r = concat (replicate n [UpdateCall, WaitTimeout]) @ post"
    and p: "post \<in> {[UpdateCall], [UpdateCall, WaitStopped, IsRunningCall],
                    [UpdateCall, WaitStopped, IsRunningCall, UpdateCall]}"
    by auto
  have "dropWhile (\<lambda>c. c \<noteq> WaitStopped) (calls r) = dropWhile (\<lambda>c. c \<noteq> WaitStopped) post"
    unfolding c by (rule dropWhile_append2) (auto split: if_splits)
  with p show ?thesis by (auto simp: final_checks_def)
qed

subsection \<open>Claims about \<^verbatim>\<open>updateBoundingBox\<close>\<close>

text \<open>
  Claim C9. If a check finds the file ready and some token of it is not a valid
  floating-point literal, the conversion of the whole token list raises \<^verbatim>\<open>ValueError\<close>
  before the first write: the thread object, with every field of the bounding box and the
  validity flag of its node, is returned unchanged.
\<close>

theorem bad_token_leaves_node_unchanged:
  assumes "startTime th = Some st" and "st \<le> mtime f"
    and "t \<in> set (splitlines (strip (content f)))" and "flt t = None"
  shows "updateBoundingBox flt th (Some f) = (th, Inl ValueError)"
  using assms by (rule update_bad_token)

theorem bad_token_leaves_node_unchanged_witness:
  "startTime ((init defaultNode False)\<lparr>startTime := Some 100\<rparr>) = Some 100
   \<and> (100 :: real) \<le> mtime \<lparr>mtime = 101, content = bad\<rparr>
   \<and> ''x'' \<in> set (splitlines (strip (content \<lparr>mtime = 101, content = bad\<rparr>)))
   \<and> float_of_digits ''x'' = None
   \<and> updateBoundingBox float_of_digits ((init defaultNode False)\<lparr>startTime := Some 100\<rparr>)
        (Some \<lparr>mtime = 101, content = bad\<rparr>)
      = ((init defaultNode False)\<lparr>startTime := Some 100\<rparr>, Inl ValueError)"
proof -
  have a: "startTime ((init defaultNode False)\<lparr>startTime := Some 100\<rparr>) = Some 100"
    by simp
  have b: "(100 :: real) \<le> mtime \<lparr>mtime = 101, content = bad\<rparr>"
    by simp
  have c: "''x'' \<in> set (splitlines (strip (content \<lparr>mtime = 101, content = bad\<rparr>)))"
    by (simp add: tokens_bad)
  have d: "float_of_digits ''x'' = None"
    by (simp add: float_of_digits_def)
  from bad_token_leaves_node_unchanged [where flt = float_of_digits and t = "''x''", OF a b c d]
    a b c d show ?thesis
    by blast
qed

text \<open>
  Claim C10. If a check finds the file ready and it holds more than 9 tokens, all of them
  valid floating-point literals, \<^verbatim>\<open>updateBoundingBox\<close> returns true: the first 9 values
  are written in the order of the descriptor, the validity flag is set, the other tokens
  are ignored and nothing is raised.
\<close>

theorem extra_tokens_ignored:
  assumes "shape (boundingBox (node th)) = boundingBoxDesc"
    and "startTime th = Some st" and "st \<le> mtime f"
    and "map_float flt (splitlines (strip (content f))) = Inr vs" and "9 < length vs"
  shows "updateBoundingBox flt th (Some f) =
     (th\<lparr>node := (node th)\<lparr>boundingBox := mkBoundingBox (take 9 vs),
                            automaticBBoxValid := True\<rparr>\<rparr>, Inr True)"
proof -
  have "mkBoundingBox (take 9 vs) = mkBoundingBox vs"
    by (simp add: mkBoundingBox_def)
  moreover from assms(5) have "9 \<le> length vs" by simp
  ultimately show ?thesis
    using update_applied [OF assms(1-4)] by simp
qed

theorem extra_tokens_ignored_witness:
  "shape (boundingBox (node ((init defaultNode False)\<lparr>startTime := Some 100\<rparr>))) = boundingBoxDesc
   \<and> startTime ((init defaultNode False)\<lparr>startTime := Some 100\<rparr>) = Some 100
   \<and> (100 :: real) \<le> mtime \<lparr>mtime = 101, content = ten\<rparr>
   \<and> map_float float_of_digits (splitlines (strip (content \<lparr>mtime = 101, content = ten\<rparr>)))
       = Inr [3, 1, 4, 10, 20, 30, 2, 2, 5, 7]
   \<and> 9 < length [3, 1, 4, 10, 20, 30, 2, 2, 5, 7 :: int]
   \<and> updateBoundingBox float_of_digits ((init defaultNode False)\<lparr>startTime := Some 100\<rparr>)
        (Some \<lparr>mtime = 101, content = ten\<rparr>)
      = ((init defaultNode False)
           \<lparr>startTime := Some 100,
            node := defaultNode\<lparr>boundingBox := mkBoundingBox [3, 1, 4, 10, 20, 30, 2, 2, 5],
                                 automaticBBoxValid := True\<rparr>\<rparr>, Inr True)"
proof -
  let ?th = "(init defaultNode False)\<lparr>startTime := Some 100\<rparr>"
  let ?f = "\<lparr>mtime = 101, content = ten\<rparr>"
  have a: "shape (boundingBox (node ?th)) = boundingBoxDesc"
    by (simp add: init_def shape_default)
  have b: "startTime ?th = Some 100" by simp
  have c: "(100 :: real) \<le> mtime ?f" by simp
  have d: "map_float float_of_digits (splitlines (strip (content ?f)))
       = Inr [3, 1, 4, 10, 20, 30, 2, 2, 5, 7]"
    by (simp add: floats_ten)
  have e: "9 < length [3, 1, 4, 10, 20, 30, 2, 2, 5, 7 :: int]" by simp
  from extra_tokens_ignored [where flt = float_of_digits, OF a b c d e] a b c d e show ?thesis
    by (simp add: init_def)
qed

subsection \<open>Claims about \<^verbatim>\<open>run\<close>\<close>

lemma quiet_D: "quiet w st n \<Longrightarrow> i < n \<Longrightarrow> \<not> ready st (fileAt w i) \<and> stopCalls w i = 0"
  by (induction n) (auto simp: less_Suc_eq)

lemma run_quiet:
  assumes "\<not> checkOnce th" "\<not> stopFlag th" "quiet w (now w) n"
  shows "run flt w th =
     run_loop flt w n (concat (replicate n [UpdateCall, WaitTimeout]))
       (th\<lparr>startTime := Some (now w)\<rparr>)"
proof -
  let ?th = "th\<lparr>startTime := Some (now w)\<rparr>"
  have "run_loop flt w 0 [] ?th =
      run_loop flt w (0 + n) ([] @ concat (replicate n [UpdateCall, WaitTimeout])) ?th"
    using assms quiet_D [OF assms(3)]
    by (intro run_loop_skip [where st = "now w"]) auto
  with assms(1) show ?thesis by (simp add: run_def)
qed

lemma tokens_eight: "splitlines (strip eight) = [''3'', ''1'', ''4'', ''10'', ''20'', ''30'', ''2'', ''2'']"
  by (simp add: eight_def splitlines_def strip_def isspace_def islinebreak_def)

lemma floats_eight: "map_float float_of_digits (splitlines (strip eight)) = Inr [3, 1, 4, 10, 20, 30, 2, 2]"
  by (simp add: tokens_eight float_of_digits_def)

lemma handler_simps: "handler ValueError = Some ValueError" "handler IndexError = Some IndexError"
  by (simp_all add: handler_def)

lemma run_baseline:
  "run flt w th = run_loop flt w 0 [] (th\<lparr>startTime := Some (baseline w th)\<rparr>)"
  by (simp add: run_def baseline_def)

lemma run_to_loop_check:
  assumes "makes_loop_check w th n"
  shows "run flt w th =
     run_loop flt w n (concat (replicate n [UpdateCall, WaitTimeout]))
       (th\<lparr>startTime := Some (baseline w th)\<rparr>)"
proof (cases "n = 0")
  case True
  then show ?thesis by (simp add: run_baseline)
next
  case False
  with assms have c: "\<not> checkOnce th" "\<not> stopFlag th" and q: "quiet w (baseline w th) n"
    by (auto simp: makes_loop_check_def)
  from c(1) have b: "baseline w th = now w" by (simp add: baseline_def)
  from run_quiet [OF c] q b show ?thesis by simp
qed

lemma stopRequest_set: "stopFlag th \<Longrightarrow> stopRequest th = th"
  by (simp add: stopRequest_def)

lemma run_check:
  assumes "makes_loop_check w th n \<or> makes_final_check w th n"
    and "updateBoundingBox flt (at_check w th n) (fileAt w n) = (th1, res)"
    and "res \<noteq> Inr False"
  shows "run flt w th =
     Some \<lparr>final = th1,
           uncaught = (case res of Inl e \<Rightarrow> handler e | Inr b \<Rightarrow> None),
           calls = calls_before w th n @ [UpdateCall]\<rparr>"
proof (cases "makes_final_check w th n")
  case True
  let ?th = "th\<lparr>startTime := Some (baseline w th)\<rparr>"
  from True obtain k where n: "n = Suc k" and lc: "makes_loop_check w th k"
    and c: "\<not> checkOnce th" and nr: "\<not> ready (baseline w th) (fileAt w k)"
    and st: "stopFlag th \<or> 0 < stopCalls w k" and pr: "parentRunning w = Inr True"
    by (cases n) (auto simp: makes_final_check_def)
  have u: "updateBoundingBox flt ?th (fileAt w k) = (?th, Inr False)"
    using nr by (intro update_not_ready [where st = "baseline w th"]) auto
  have wt: "wait w k ?th = (stopRequest ?th, True)"
    using st by (auto simp: wait_flag stopRequest_set)
  have f: "updateBoundingBox flt (stopRequest ?th) (fileAt w (Suc k)) = (th1, res)"
    using assms(2) True n by (simp add: at_check_def)
  have "iteration flt w k ?th =
     Done \<lparr>final = th1, uncaught = (case res of Inl e \<Rightarrow> handler e | Inr b \<Rightarrow> None),
           calls = [UpdateCall, WaitStopped, IsRunningCall, UpdateCall]\<rparr>"
    using c u wt pr f by (cases res) (simp_all add: iteration_def)
  from run_loop_Done [OF this] run_to_loop_check [OF lc, of flt] True n show ?thesis
    by (simp add: calls_before_def)
next
  case False
  let ?th = "th\<lparr>startTime := Some (baseline w th)\<rparr>"
  from False assms(1) have lc: "makes_loop_check w th n" by blast
  have f: "updateBoundingBox flt ?th (fileAt w n) = (th1, res)"
    using assms(2) False by (simp add: at_check_def)
  have "iteration flt w n ?th =
     Done \<lparr>final = th1, uncaught = (case res of Inl e \<Rightarrow> handler e | Inr b \<Rightarrow> None),
           calls = [UpdateCall]\<rparr>"
  proof (cases res)
    case (Inl e)
    with f show ?thesis by (simp add: iteration_def)
  next
    case (Inr b)
    with assms(3) have "b" by simp
    with Inr f show ?thesis by (simp add: iteration_def)
  qed
  from run_loop_Done [OF this] run_to_loop_check [OF lc, of flt] False show ?thesis
    by (simp add: calls_before_def)
qed

lemma at_check_fields:
  "startTime (at_check w th n) = Some (baseline w th)" "node (at_check w th n) = node th"
  by (simp_all add: at_check_def stopRequest_def)

lemma floats_two: "map_float float_of_digits (splitlines (strip two)) = Inr [3, 1]"
  by (simp add: two_def splitlines_def strip_def isspace_def islinebreak_def float_of_digits_def)

lemma run_midwrite:
  assumes "fileAt w 0 = Some \<lparr>mtime = 101, content = two\<rparr>" and "now w = 100"
  shows "run float_of_digits w (init defaultNode False) =
     Some \<lparr>final = (init defaultNode False)
                    \<lparr>node := defaultNode\<lparr>boundingBox := mkBoundingBox [3, 1, 0, 0, 0, 0, 1, 1, 1]\<rparr>,
                     startTime := Some 100\<rparr>,
           uncaught = Some IndexError,
           calls = [UpdateCall]\<rparr>"
proof -
  let ?th = "(init defaultNode False)\<lparr>startTime := Some 100\<rparr>"
  have "iteration float_of_digits w 0 ?th =
     Done \<lparr>final = (init defaultNode False)
                    \<lparr>node := defaultNode\<lparr>boundingBox := mkBoundingBox [3, 1, 0, 0, 0, 0, 1, 1, 1]\<rparr>,
                     startTime := Some 100\<rparr>,
           uncaught = Some IndexError, calls = [UpdateCall]\<rparr>"
    using assms(1)
    by (simp add: iteration_def updateBoundingBox_def init_def floats_two defaultNode_def
        mkBoundingBox_def handler_simps)
  from run_loop_Done [OF this, of "[]"] assms(2) show ?thesis
    by (simp add: run_def init_def)
qed

lemma applied_at_check:
  assumes "shape (boundingBox (node th)) = boundingBoxDesc"
    and "makes_loop_check w th n \<or> makes_final_check w th n"
    and "fileAt w n = Some f" and "baseline w th \<le> mtime f"
    and "map_float flt (splitlines (strip (content f))) = Inr vs" and "9 \<le> length vs"
  shows "run flt w th =
       Some \<lparr>final = (at_check w th n)\<lparr>node := (node th)\<lparr>boundingBox := mkBoundingBox vs,
                                                          automaticBBoxValid := True\<rparr>\<rparr>,
             uncaught = None,
             calls = calls_before w th n @ [UpdateCall]\<rparr>"
proof -
  let ?th = "at_check w th n"
  have "updateBoundingBox flt ?th (Some f) =
     (?th\<lparr>node := (node ?th)\<lparr>boundingBox := mkBoundingBox vs, automaticBBoxValid := True\<rparr>\<rparr>,
      Inr True)"
    using assms(1,4,5,6)
    by (intro update_applied [where st = "baseline w th"]) (simp_all add: at_check_fields)
  then have "updateBoundingBox flt ?th (fileAt w n) =
     (?th\<lparr>node := (node th)\<lparr>boundingBox := mkBoundingBox vs, automaticBBoxValid := True\<rparr>\<rparr>,
      Inr True)"
    using assms(3) by (simp add: at_check_fields)
  from run_check [OF assms(2) this] show ?thesis by simp
qed

text \<open>
  Claim C1 says that every file of 9 valid values with a modification time at or after
  the baseline is parsed and applied, and that the validity flag is true after \<^verbatim>\<open>join\<close>.
  The thread does not survive a file it finds while the file is being written. In
  \<open>midwrite\<close> the first check finds two lines: the write loop raises \<^verbatim>\<open>IndexError\<close> after
  two fields, \<^verbatim>\<open>run\<close> does not handle it and the thread ends. The complete file, valid and
  newer than the baseline, is on disk from the next check on and is never read:
  \<^verbatim>\<open>processChunk\<close> returns with the flag false.
\<close>

theorem partial_file_counterexample:
  "fileAt midwrite 1 = Some \<lparr>mtime = 102, content = nine\<rparr>
   \<and> now midwrite \<le> mtime \<lparr>mtime = 102, content = nine\<rparr>
   \<and> map_float float_of_digits (splitlines (strip (content \<lparr>mtime = 102, content = nine\<rparr>)))
        = Inr [3, 1, 4, 10, 20, 30, 2, 2, 5]
   \<and> run float_of_digits midwrite (init defaultNode False) =
       Some \<lparr>final = (init defaultNode False)
                    \<lparr>node := defaultNode\<lparr>boundingBox := mkBoundingBox [3, 1, 0, 0, 0, 0, 1, 1, 1]\<rparr>,
                     startTime := Some 100\<rparr>,
             uncaught = Some IndexError,
             calls = [UpdateCall]\<rparr>
   \<and> processChunk float_of_digits midwrite 5 defaultNode (Returned ()) =
       Some (\<lparr>bboxThread =
                Some ((init defaultNode False)
                    \<lparr>node := defaultNode\<lparr>boundingBox := mkBoundingBox [3, 1, 0, 0, 0, 0, 1, 1, 1]\<rparr>,
                     stopFlag := True, startTime := Some 100\<rparr>),
              gnode = defaultNode\<lparr>boundingBox := mkBoundingBox [3, 1, 0, 0, 0, 0, 1, 1, 1]\<rparr>,
              watcher =
                Some \<lparr>final = (init defaultNode False)
                    \<lparr>node := defaultNode\<lparr>boundingBox := mkBoundingBox [3, 1, 0, 0, 0, 0, 1, 1, 1]\<rparr>,
                     startTime := Some 100\<rparr>,
                  uncaught = Some IndexError,
                  calls = [UpdateCall]\<rparr>,
              trace = [ThreadStarted, WrappedOperation, StopRequestCalled, JoinReturned]\<rparr>,
             Returned ())
   \<and> \<not> automaticBBoxValid
          (defaultNode\<lparr>boundingBox := mkBoundingBox [3, 1, 0, 0, 0, 0, 1, 1, 1]\<rparr>)"
proof -
  have a: "fileAt midwrite 1 = Some \<lparr>mtime = 102, content = nine\<rparr>"
    and b: "now midwrite \<le> mtime \<lparr>mtime = 102, content = nine\<rparr>"
    by (simp_all add: midwrite_def idle_def)
  have c: "map_float float_of_digits (splitlines (strip (content \<lparr>mtime = 102, content = nine\<rparr>)))
        = Inr [3, 1, 4, 10, 20, 30, 2, 2, 5]"
    by (simp add: floats_nine)
  have r: "run float_of_digits midwrite (init defaultNode False) =
       Some \<lparr>final = (init defaultNode False)
                    \<lparr>node := defaultNode\<lparr>boundingBox := mkBoundingBox [3, 1, 0, 0, 0, 0, 1, 1, 1]\<rparr>,
                     startTime := Some 100\<rparr>,
             uncaught = Some IndexError,
             calls = [UpdateCall]\<rparr>"
    by (rule run_midwrite) (simp_all add: midwrite_def idle_def)
  have rt: "run float_of_digits (teardown midwrite 5) (init defaultNode False) =
       Some \<lparr>final = (init defaultNode False)
                    \<lparr>node := defaultNode\<lparr>boundingBox := mkBoundingBox [3, 1, 0, 0, 0, 0, 1, 1, 1]\<rparr>,
                     startTime := Some 100\<rparr>,
             uncaught = Some IndexError,
             calls = [UpdateCall]\<rparr>"
    by (rule run_midwrite) (simp_all add: teardown_def midwrite_def idle_def)
  have p: "processChunk float_of_digits midwrite 5 defaultNode (Returned ()) =
       Some (\<lparr>bboxThread =
                Some ((init defaultNode False)
                    \<lparr>node := defaultNode\<lparr>boundingBox := mkBoundingBox [3, 1, 0, 0, 0, 0, 1, 1, 1]\<rparr>,
                     stopFlag := True, startTime := Some 100\<rparr>),
              gnode = defaultNode\<lparr>boundingBox := mkBoundingBox [3, 1, 0, 0, 0, 0, 1, 1, 1]\<rparr>,
              watcher =
                Some \<lparr>final = (init defaultNode False)
                    \<lparr>node := defaultNode\<lparr>boundingBox := mkBoundingBox [3, 1, 0, 0, 0, 0, 1, 1, 1]\<rparr>,
                     startTime := Some 100\<rparr>,
                  uncaught = Some IndexError,
                  calls = [UpdateCall]\<rparr>,
              trace = [ThreadStarted, WrappedOperation, StopRequestCalled, JoinReturned]\<rparr>,
             Returned ())"
    using rt
    by (simp add: processChunk_def boundingBoxMonitor_def try_finally_def try_block_def
        finally_block_def stopRequest_def)
      (simp add: defaultNode_def init_def)
  have d: "\<not> automaticBBoxValid
          (defaultNode\<lparr>boundingBox := mkBoundingBox [3, 1, 0, 0, 0, 0, 1, 1, 1]\<rparr>)"
    by (simp add: defaultNode_def)
  from a b c r p d show ?thesis by blast
qed

text \<open>
  Claim C1, as the code has it. In continuous mode, when a check that the thread makes (a
  check at the head of the loop, or the final check after a stop request with the parent
  alive) finds the file with a modification time at or after the baseline and exactly 9
  tokens, all valid floating-point literals, and no earlier check of the thread has
  found the file ready, the thread writes the 9 values into translation, rotation and
  scale in the order of the descriptor, sets the validity flag and leaves the loop: \<^verbatim>\<open>run\<close>
  returns after that check, with no exception. In \<^verbatim>\<open>processChunk\<close>, when the thread it
  starts makes that check, \<^verbatim>\<open>join\<close> returns and the node has the flag true and the 9
  fields equal to the values.
\<close>

theorem run_applies_valid_artifact:
  assumes "shape (boundingBox (node th)) = boundingBoxDesc"
    and "\<not> checkOnce th"
    and "makes_loop_check w th n \<or> makes_final_check w th n"
    and "fileAt w n = Some f" and "now w \<le> mtime f"
    and "map_float flt (splitlines (strip (content f))) = Inr vs" and "length vs = 9"
  shows "run flt w th =
       Some \<lparr>final = (at_check w th n)\<lparr>node := (node th)\<lparr>boundingBox := mkBoundingBox vs,
                                                          automaticBBoxValid := True\<rparr>\<rparr>,
             uncaught = None,
             calls = calls_before w th n @ [UpdateCall]\<rparr>
     \<and> (shape (boundingBox nd) = boundingBoxDesc \<and> \<not> useBoundingBox nd
          \<and> (makes_loop_check (teardown w d) (init nd False) n
               \<or> makes_final_check (teardown w d) (init nd False) n)
        \<longrightarrow> (\<exists>g. processChunk flt w d nd out = Some (g, discard out)
               \<and> gnode g = nd\<lparr>boundingBox := mkBoundingBox vs, automaticBBoxValid := True\<rparr>))"
proof -
  from assms(7) have len: "9 \<le> length vs" by simp
  from assms(2) have b: "baseline w th = now w" by (simp add: baseline_def)
  have 1: "run flt w th =
       Some \<lparr>final = (at_check w th n)\<lparr>node := (node th)\<lparr>boundingBox := mkBoundingBox vs,
                                                          automaticBBoxValid := True\<rparr>\<rparr>,
             uncaught = None,
             calls = calls_before w th n @ [UpdateCall]\<rparr>"
    using assms(1,3,4,5,6) len b by (intro applied_at_check) simp_all
  have 2: "\<exists>g. processChunk flt w d nd out = Some (g, discard out)
               \<and> gnode g = nd\<lparr>boundingBox := mkBoundingBox vs, automaticBBoxValid := True\<rparr>"
    if s: "shape (boundingBox nd) = boundingBoxDesc" and u: "\<not> useBoundingBox nd"
      and m: "makes_loop_check (teardown w d) (init nd False) n
               \<or> makes_final_check (teardown w d) (init nd False) n"
  proof -
    let ?w = "teardown w d"
    let ?th = "init nd False :: 'a BoundingBoxThread"
    have "run flt ?w ?th =
       Some \<lparr>final = (at_check ?w ?th n)\<lparr>node := (node ?th)\<lparr>boundingBox := mkBoundingBox vs,
                                                          automaticBBoxValid := True\<rparr>\<rparr>,
             uncaught = None,
             calls = calls_before ?w ?th n @ [UpdateCall]\<rparr>"
      using s m assms(4,5,6) len
      by (intro applied_at_check [where f = f])
        (simp_all add: init_def teardown_def baseline_def)
    with u show ?thesis
      by (simp add: processChunk_def boundingBoxMonitor_def try_finally_def try_block_def
          finally_block_def init_def)
  qed
  from 1 2 show ?thesis by blast
qed

theorem run_applies_valid_artifact_witness:
  "shape (boundingBox (node (init defaultNode False))) = boundingBoxDesc
   \<and> \<not> checkOnce (init defaultNode False)
   \<and> makes_loop_check (appears 2 \<lparr>mtime = 101, content = nine\<rparr>) (init defaultNode False) 2
   \<and> fileAt (appears 2 \<lparr>mtime = 101, content = nine\<rparr>) 2 = Some \<lparr>mtime = 101, content = nine\<rparr>
   \<and> now (appears 2 \<lparr>mtime = 101, content = nine\<rparr>) \<le> mtime \<lparr>mtime = 101, content = nine\<rparr>
   \<and> map_float float_of_digits (splitlines (strip (content \<lparr>mtime = 101, content = nine\<rparr>)))
       = Inr [3, 1, 4, 10, 20, 30, 2, 2, 5]
   \<and> length [3, 1, 4, 10, 20, 30, 2, 2, 5 :: int] = 9
   \<and> \<not> useBoundingBox defaultNode
   \<and> makes_loop_check (teardown (appears 2 \<lparr>mtime = 101, content = nine\<rparr>) 7)
         (init defaultNode False) 2
   \<and> run float_of_digits (appears 2 \<lparr>mtime = 101, content = nine\<rparr>) (init defaultNode False) =
     Some \<lparr>final = (init defaultNode False)
                    \<lparr>node := defaultNode\<lparr>boundingBox := mkBoundingBox [3, 1, 4, 10, 20, 30, 2, 2, 5],
                                         automaticBBoxValid := True\<rparr>,
                     startTime := Some 100\<rparr>,
           uncaught = None,
           calls = [UpdateCall, WaitTimeout, UpdateCall, WaitTimeout, UpdateCall]\<rparr>
   \<and> (\<exists>g. processChunk float_of_digits (appears 2 \<lparr>mtime = 101, content = nine\<rparr>) 7 defaultNode
              (Returned (5 :: nat)) = Some (g, Returned ())
          \<and> gnode g = defaultNode\<lparr>boundingBox := mkBoundingBox [3, 1, 4, 10, 20, 30, 2, 2, 5],
                                   automaticBBoxValid := True\<rparr>)"
proof -
  let ?f = "\<lparr>mtime = 101, content = nine\<rparr>"
  let ?w = "appears 2 ?f"
  let ?th = "init defaultNode False :: int BoundingBoxThread"
  have a: "shape (boundingBox (node ?th)) = boundingBoxDesc"
    by (simp add: init_def shape_default)
  have b: "\<not> checkOnce ?th"
    by (simp add: init_def)
  have c: "makes_loop_check ?w ?th 2"
    by (simp add: makes_loop_check_def baseline_def init_def numeral_2_eq_2 appears_def idle_def
        ready_def)
  then have c': "makes_loop_check ?w ?th 2 \<or> makes_final_check ?w ?th 2"
    by (rule disjI1)
  have nf: "\<not> makes_final_check ?w ?th 2"
    by (simp add: makes_final_check_def init_def numeral_2_eq_2 appears_def idle_def)
  have e: "fileAt ?w 2 = Some ?f"
    by (simp add: appears_def)
  have f: "now ?w \<le> mtime ?f"
    by (simp add: appears_def idle_def)
  have g: "map_float float_of_digits (splitlines (strip (content ?f)))
      = Inr [3, 1, 4, 10, 20, 30, 2, 2, 5]"
    by (simp add: floats_nine)
  have h: "length [3, 1, 4, 10, 20, 30, 2, 2, 5 :: int] = 9"
    by simp
  have i: "shape (boundingBox defaultNode) = boundingBoxDesc" "\<not> useBoundingBox defaultNode"
    by (simp_all add: shape_default) (simp add: defaultNode_def)
  have j: "makes_loop_check (teardown ?w 7) ?th 2"
    by (simp add: makes_loop_check_def baseline_def init_def numeral_2_eq_2 appears_def idle_def
        ready_def teardown_def)
  note t = run_applies_valid_artifact [where flt = float_of_digits and d = 7
      and nd = defaultNode and out = "Returned (5 :: nat)", OF a b c' e f g h]
  from t have r: "run float_of_digits ?w ?th =
       Some \<lparr>final = (at_check ?w ?th 2)
                 \<lparr>node := (node ?th)\<lparr>boundingBox := mkBoundingBox [3, 1, 4, 10, 20, 30, 2, 2, 5],
                                      automaticBBoxValid := True\<rparr>\<rparr>,
             uncaught = None,
             calls = calls_before ?w ?th 2 @ [UpdateCall]\<rparr>"
    by blast
  from t i j have p: "\<exists>g. processChunk float_of_digits ?w 7 defaultNode (Returned (5 :: nat))
        = Some (g, discard (Returned (5 :: nat)))
      \<and> gnode g = defaultNode\<lparr>boundingBox := mkBoundingBox [3, 1, 4, 10, 20, 30, 2, 2, 5],
                               automaticBBoxValid := True\<rparr>"
    by blast
  have ac: "at_check ?w ?th 2 = ?th\<lparr>startTime := Some 100\<rparr>"
    using nf by (simp add: at_check_def baseline_def init_def appears_def idle_def)
  have cb: "calls_before ?w ?th 2 = [UpdateCall, WaitTimeout, UpdateCall, WaitTimeout]"
    using nf by (simp add: calls_before_def numeral_2_eq_2)
  from r ac cb have r': "run float_of_digits ?w ?th =
     Some \<lparr>final = ?th\<lparr>node := defaultNode\<lparr>boundingBox := mkBoundingBox [3, 1, 4, 10, 20, 30, 2, 2, 5],
                                         automaticBBoxValid := True\<rparr>,
                     startTime := Some 100\<rparr>,
           uncaught = None,
           calls = [UpdateCall, WaitTimeout, UpdateCall, WaitTimeout, UpdateCall]\<rparr>"
    by (simp add: init_def)
  from a b c e f g h i(2) j r' p show ?thesis
    by simp
qed

text \<open>
  Claim C2 says that a malformed file makes the thread record a \<^verbatim>\<open>ParseError\<close> that can be
  inspected afterwards, that nothing is raised out of the thread, and that no field of the
  bounding box is changed. The thread object has no field for an error, and the handler of
  \<^verbatim>\<open>run\<close> does not catch what \<^verbatim>\<open>updateBoundingBox\<close> raises. With a file of 8 valid tokens,
  present at the first check: \<^verbatim>\<open>IndexError\<close> leaves \<^verbatim>\<open>run\<close>, after the first 8 fields have
  been overwritten.
\<close>

theorem malformed_artifact_counterexample:
  "run float_of_digits (appears 0 \<lparr>mtime = 101, content = eight\<rparr>) (init defaultNode False) =
     Some \<lparr>final = (init defaultNode False)
                    \<lparr>node := defaultNode\<lparr>boundingBox := mkBoundingBox [3, 1, 4, 10, 20, 30, 2, 2, 1]\<rparr>,
                     startTime := Some 100\<rparr>,
           uncaught = Some IndexError,
           calls = [UpdateCall]\<rparr>
   \<and> mkBoundingBox [3, 1, 4, 10, 20, 30, 2, 2, 1] \<noteq> boundingBox defaultNode"
proof -
  let ?th = "(init defaultNode False)\<lparr>startTime := Some 100\<rparr>"
  let ?w = "appears 0 \<lparr>mtime = 101, content = eight\<rparr>"
  have "iteration float_of_digits ?w 0 ?th =
     Done \<lparr>final = (init defaultNode False)
                    \<lparr>node := defaultNode\<lparr>boundingBox := mkBoundingBox [3, 1, 4, 10, 20, 30, 2, 2, 1]\<rparr>,
                     startTime := Some 100\<rparr>,
           uncaught = Some IndexError, calls = [UpdateCall]\<rparr>"
    by (simp add: iteration_def updateBoundingBox_def appears_def idle_def init_def floats_eight
        defaultNode_def mkBoundingBox_def handler_simps)
  from run_loop_Done [OF this, of "[]"] show ?thesis
    by (simp add: run_def init_def appears_def idle_def mkBoundingBox_def defaultNode_def)
qed

text \<open>
  Claim C2, as the code has it. When a check that the thread makes, in either mode (a
  check at the head of the loop, the final check after a stop request, or the one check
  of \<^verbatim>\<open>checkOnce\<close>), finds the file ready with a token that is not a valid floating-point
  literal, or with fewer than 9 tokens, all valid: \<^verbatim>\<open>updateBoundingBox\<close> raises
  \<^verbatim>\<open>ValueError\<close> in the first case and \<^verbatim>\<open>IndexError\<close> in the second; \<^verbatim>\<open>run\<close> does not handle
  it, so the exception leaves \<^verbatim>\<open>run\<close> and ends the thread. Of the thread object as it was
  at that check, nothing but the bounding box of the node can have changed: no error is
  recorded and the validity flag keeps its value. When a token is invalid the bounding
  box is unchanged too.
\<close>

theorem malformed_artifact_raises:
  assumes "shape (boundingBox (node th)) = boundingBoxDesc"
    and "makes_loop_check w th n \<or> makes_final_check w th n"
    and "fileAt w n = Some f" and "baseline w th \<le> mtime f"
    and "(\<exists>t \<in> set (splitlines (strip (content f))). flt t = None)
         \<or> (\<exists>vs. map_float flt (splitlines (strip (content f))) = Inr vs \<and> length vs < 9)"
  shows "\<exists>bb. run flt w th =
       Some \<lparr>final = (at_check w th n)\<lparr>node := (node th)\<lparr>boundingBox := bb\<rparr>\<rparr>,
             uncaught = Some (if \<exists>t \<in> set (splitlines (strip (content f))). flt t = None
                              then ValueError else IndexError),
             calls = calls_before w th n @ [UpdateCall]\<rparr>
     \<and> ((\<exists>t \<in> set (splitlines (strip (content f))). flt t = None)
          \<longrightarrow> bb = boundingBox (node th))"
proof -
  let ?th = "at_check w th n"
  let ?toks = "splitlines (strip (content f))"
  have st: "startTime ?th = Some (baseline w th)" and nd: "node ?th = node th"
    by (simp_all add: at_check_fields)
  show ?thesis
  proof (cases "\<exists>t \<in> set ?toks. flt t = None")
    case True
    then obtain t where t: "t \<in> set ?toks" "flt t = None" by blast
    have "updateBoundingBox flt ?th (Some f) = (?th, Inl ValueError)"
      using st assms(4) t by (intro update_bad_token [where st = "baseline w th" and t = t])
    then have "updateBoundingBox flt ?th (fileAt w n) = (?th, Inl ValueError)"
      using assms(3) by simp
    from run_check [OF assms(2) this]
    have "run flt w th =
       Some \<lparr>final = ?th, uncaught = Some ValueError, calls = calls_before w th n @ [UpdateCall]\<rparr>"
      by (simp add: handler_simps)
    moreover have "?th\<lparr>node := (node th)\<lparr>boundingBox := boundingBox (node th)\<rparr>\<rparr> = ?th"
      using nd by simp
    ultimately show ?thesis using True
      by (intro exI [of _ "boundingBox (node th)"]) simp
  next
    case False
    with assms(5) obtain vs where
      vs: "map_float flt ?toks = Inr vs" "length vs < 9" by blast
    let ?bb = "fst (write_bbox vs 0 (boundingBox (node ?th)))"
    have "updateBoundingBox flt ?th (Some f) =
        (?th\<lparr>node := (node ?th)\<lparr>boundingBox := ?bb\<rparr>\<rparr>, Inl IndexError)"
      using assms(1,4) vs st nd by (intro update_short [where st = "baseline w th"]) simp_all
    then have "updateBoundingBox flt ?th (fileAt w n) =
        (?th\<lparr>node := (node th)\<lparr>boundingBox := ?bb\<rparr>\<rparr>, Inl IndexError)"
      using assms(3) nd by simp
    from run_check [OF assms(2) this]
    have "run flt w th =
       Some \<lparr>final = ?th\<lparr>node := (node th)\<lparr>boundingBox := ?bb\<rparr>\<rparr>,
             uncaught = Some IndexError, calls = calls_before w th n @ [UpdateCall]\<rparr>"
      by (simp add: handler_simps)
    with False show ?thesis
      by (intro exI [of _ ?bb] conjI impI) auto
  qed
qed

theorem malformed_artifact_raises_witness:
  "shape (boundingBox (node (init defaultNode False))) = boundingBoxDesc
   \<and> makes_final_check (stopsAt 0 True (appears 1 \<lparr>mtime = 101, content = bad\<rparr>))
        (init defaultNode False) 1
   \<and> fileAt (stopsAt 0 True (appears 1 \<lparr>mtime = 101, content = bad\<rparr>)) 1
        = Some \<lparr>mtime = 101, content = bad\<rparr>
   \<and> baseline (stopsAt 0 True (appears 1 \<lparr>mtime = 101, content = bad\<rparr>)) (init defaultNode False)
        \<le> mtime \<lparr>mtime = 101, content = bad\<rparr>
   \<and> (\<exists>t \<in> set (splitlines (strip (content \<lparr>mtime = 101, content = bad\<rparr>))). float_of_digits t = None)
   \<and> run float_of_digits (stopsAt 0 True (appears 1 \<lparr>mtime = 101, content = bad\<rparr>))
        (init defaultNode False) =
       Some \<lparr>final = (init defaultNode False)\<lparr>stopFlag := True, startTime := Some 100\<rparr>,
             uncaught = Some ValueError,
             calls = [UpdateCall, WaitStopped, IsRunningCall, UpdateCall]\<rparr>"
proof -
  let ?f = "\<lparr>mtime = 101, content = bad\<rparr>"
  let ?w = "stopsAt 0 True (appears 1 ?f)"
  let ?th = "init defaultNode False :: int BoundingBoxThread"
  have a: "shape (boundingBox (node ?th)) = boundingBoxDesc"
    by (simp add: init_def shape_default)
  have b: "makes_final_check ?w ?th 1"
    by (simp add: makes_final_check_def makes_loop_check_def baseline_def init_def stopsAt_def
        appears_def idle_def ready_def)
  then have b': "makes_loop_check ?w ?th 1 \<or> makes_final_check ?w ?th 1"
    by (rule disjI2)
  have c: "fileAt ?w 1 = Some ?f"
    by (simp add: stopsAt_def appears_def)
  have d: "baseline ?w ?th \<le> mtime ?f"
    by (simp add: baseline_def init_def stopsAt_def appears_def idle_def)
  have g: "\<exists>t \<in> set (splitlines (strip (content ?f))). float_of_digits t = None"
    by (simp add: tokens_bad float_of_digits_def)
  then have g': "(\<exists>t \<in> set (splitlines (strip (content ?f))). float_of_digits t = None)
         \<or> (\<exists>vs. map_float float_of_digits (splitlines (strip (content ?f))) = Inr vs \<and> length vs < 9)"
    by (rule disjI1)
  from malformed_artifact_raises [where flt = float_of_digits, OF a b' c d g'] g
  have "run float_of_digits ?w ?th =
       Some \<lparr>final = (at_check ?w ?th 1)\<lparr>node := (node ?th)\<lparr>boundingBox := boundingBox (node ?th)\<rparr>\<rparr>,
             uncaught = Some ValueError,
             calls = calls_before ?w ?th 1 @ [UpdateCall]\<rparr>"
    by auto
  moreover have "at_check ?w ?th 1 = ?th\<lparr>stopFlag := True, startTime := Some 100\<rparr>"
    using b by (simp add: at_check_def baseline_def init_def stopsAt_def appears_def idle_def
        stopRequest_def)
  moreover have "calls_before ?w ?th 1 = [UpdateCall, WaitStopped, IsRunningCall]"
    using b by (simp add: calls_before_def)
  ultimately have "run float_of_digits ?w ?th =
       Some \<lparr>final = ?th\<lparr>stopFlag := True, startTime := Some 100\<rparr>,
             uncaught = Some ValueError,
             calls = [UpdateCall, WaitStopped, IsRunningCall, UpdateCall]\<rparr>"
    by (simp add: init_def)
  with a b c d g show ?thesis by simp
qed

lemma update_changes_ready:
  assumes "startTime th = Some st" "updateBoundingBox flt th obs \<noteq> (th, Inr False)"
  shows "ready st obs"
  using assms update_not_ready [of th st obs flt] by blast

text \<open>
  Claim C4. In continuous mode a file whose modification time is strictly before the
  baseline is not applied by the first check: the check returns false and changes
  nothing, and the thread goes on to the wait; if no stop request arrives during it, the
  loop continues with the next check. Only a file that exists with a modification time at
  or after the baseline is ready: a check that does anything but return false without a
  change has found such a file.
\<close>

theorem stale_artifact_not_applied:
  assumes "\<not> checkOnce th" and "\<not> stopFlag th"
    and "fileAt w 0 = Some f" and "mtime f < now w"
  shows "updateBoundingBox flt (th\<lparr>startTime := Some (now w)\<rparr>) (fileAt w 0)
           = (th\<lparr>startTime := Some (now w)\<rparr>, Inr False)
     \<and> (stopCalls w 0 = 0 \<longrightarrow>
          run flt w th =
            run_loop flt w 1 [UpdateCall, WaitTimeout] (th\<lparr>startTime := Some (now w)\<rparr>))
     \<and> (\<forall>obs. updateBoundingBox flt (th\<lparr>startTime := Some (now w)\<rparr>) obs
                 \<noteq> (th\<lparr>startTime := Some (now w)\<rparr>, Inr False)
              \<longrightarrow> (\<exists>g. obs = Some g \<and> now w \<le> mtime g))"
proof -
  let ?th = "th\<lparr>startTime := Some (now w)\<rparr>"
  have nr: "\<not> ready (now w) (fileAt w 0)"
    using assms(3,4) by (simp add: ready_def)
  have 1: "updateBoundingBox flt ?th (fileAt w 0) = (?th, Inr False)"
    using nr by (intro update_not_ready [where st = "now w"]) auto
  have 2: "run flt w th = run_loop flt w 1 [UpdateCall, WaitTimeout] ?th" if "stopCalls w 0 = 0"
  proof -
    from nr that have "quiet w (now w) 1" by simp
    from run_quiet [OF assms(1,2) this] show ?thesis by simp
  qed
  have 3: "\<exists>g. obs = Some g \<and> now w \<le> mtime g"
    if "updateBoundingBox flt ?th obs \<noteq> (?th, Inr False)" for obs
  proof -
    have "ready (now w) obs"
      using that by (intro update_changes_ready [where th = ?th and flt = flt]) auto
    then show ?thesis by (cases obs) (auto simp: ready_def)
  qed
  from 1 2 3 show ?thesis by blast
qed

theorem stale_artifact_not_applied_witness:
  "\<not> checkOnce (init defaultNode False) \<and> \<not> stopFlag (init defaultNode False)
   \<and> fileAt (appears 0 \<lparr>mtime = 99, content = nine\<rparr>) 0 = Some \<lparr>mtime = 99, content = nine\<rparr>
   \<and> mtime \<lparr>mtime = 99, content = nine\<rparr> < now (appears 0 \<lparr>mtime = 99, content = nine\<rparr>)
   \<and> updateBoundingBox float_of_digits ((init defaultNode False)\<lparr>startTime := Some 100\<rparr>)
        (Some \<lparr>mtime = 99, content = nine\<rparr>)
      = ((init defaultNode False)\<lparr>startTime := Some 100\<rparr>, Inr False)
   \<and> run float_of_digits (appears 0 \<lparr>mtime = 99, content = nine\<rparr>) (init defaultNode False) =
       run_loop float_of_digits (appears 0 \<lparr>mtime = 99, content = nine\<rparr>) 1
         [UpdateCall, WaitTimeout] ((init defaultNode False)\<lparr>startTime := Some 100\<rparr>)"
proof -
  let ?f = "\<lparr>mtime = 99, content = nine\<rparr>"
  let ?w = "appears 0 ?f"
  let ?th = "init defaultNode False :: int BoundingBoxThread"
  have a: "\<not> checkOnce ?th" and b: "\<not> stopFlag ?th"
    by (simp_all add: init_def)
  have c: "fileAt ?w 0 = Some ?f"
    by (simp add: appears_def)
  have d: "mtime ?f < now ?w"
    by (simp add: appears_def idle_def)
  have e: "stopCalls ?w 0 = 0" "now ?w = 100"
    by (simp_all add: appears_def idle_def)
  from stale_artifact_not_applied [where flt = float_of_digits, OF a b c d] a b c d e
  show ?thesis by simp
qed

text \<open>
  Claim C5. In continuous mode, when the file is not ready at the \<open>n\<close>-th check and a stop
  request arrives during the wait that follows: if the parent process is alive, the
  thread calls \<^verbatim>\<open>updateBoundingBox\<close> exactly once more and \<^verbatim>\<open>run\<close> ends, whether that
  call applies the file, finds it not ready or raises; if the parent process is not
  alive, \<^verbatim>\<open>run\<close> ends at once, without another call.
\<close>

theorem stop_during_wait:
  assumes "\<not> checkOnce th" and "\<not> stopFlag th"
    and "quiet w (now w) n"
    and "\<not> ready (now w) (fileAt w n)" and "0 < stopCalls w n"
    and "parentRunning w = Inr alive"
  shows "run flt w th =
     Some (if alive then
             (case updateBoundingBox flt (stopRequest (th\<lparr>startTime := Some (now w)\<rparr>))
                     (fileAt w (Suc n)) of
                (th3, res) \<Rightarrow>
                  \<lparr>final = th3,
                   uncaught = (case res of Inl e \<Rightarrow> handler e | Inr b \<Rightarrow> None),
                   calls = concat (replicate n [UpdateCall, WaitTimeout])
                             @ [UpdateCall, WaitStopped, IsRunningCall, UpdateCall]\<rparr>)
           else
             \<lparr>final = stopRequest (th\<lparr>startTime := Some (now w)\<rparr>),
              uncaught = None,
              calls = concat (replicate n [UpdateCall, WaitTimeout])
                        @ [UpdateCall, WaitStopped, IsRunningCall]\<rparr>)"
proof -
  let ?th = "th\<lparr>startTime := Some (now w)\<rparr>"
  let ?lg = "concat (replicate n [UpdateCall, WaitTimeout])"
  have u: "updateBoundingBox flt ?th (fileAt w n) = (?th, Inr False)"
    using assms(4) by (intro update_not_ready [where st = "now w"]) auto
  have wt: "wait w n ?th = (stopRequest ?th, True)"
    using assms(5) by (simp add: wait_flag)
  obtain th3 res where f: "updateBoundingBox flt (stopRequest ?th) (fileAt w (Suc n)) = (th3, res)"
    by (cases "updateBoundingBox flt (stopRequest ?th) (fileAt w (Suc n))")
  have "iteration flt w n ?th =
     Done (if alive then
             \<lparr>final = th3, uncaught = (case res of Inl e \<Rightarrow> handler e | Inr b \<Rightarrow> None),
              calls = [UpdateCall, WaitStopped, IsRunningCall, UpdateCall]\<rparr>
           else
             \<lparr>final = stopRequest ?th, uncaught = None,
              calls = [UpdateCall, WaitStopped, IsRunningCall]\<rparr>)"
    using assms(1,6) u wt f by (cases res) (simp_all add: iteration_def)
  from run_loop_Done [OF this, of ?lg] run_quiet [OF assms(1,2,3), of flt] f
  show ?thesis by simp
qed

theorem stop_during_wait_witness:
  "\<not> checkOnce (init defaultNode False) \<and> \<not> stopFlag (init defaultNode False)
   \<and> quiet (stopsAt 1 True (appears 2 \<lparr>mtime = 101, content = nine\<rparr>))
        (now (stopsAt 1 True (appears 2 \<lparr>mtime = 101, content = nine\<rparr>))) 1
   \<and> \<not> ready (now (stopsAt 1 True (appears 2 \<lparr>mtime = 101, content = nine\<rparr>)))
         (fileAt (stopsAt 1 True (appears 2 \<lparr>mtime = 101, content = nine\<rparr>)) 1)
   \<and> 0 < stopCalls (stopsAt 1 True (appears 2 \<lparr>mtime = 101, content = nine\<rparr>)) 1
   \<and> parentRunning (stopsAt 1 True (appears 2 \<lparr>mtime = 101, content = nine\<rparr>)) = Inr True
   \<and> run float_of_digits (stopsAt 1 True (appears 2 \<lparr>mtime = 101, content = nine\<rparr>))
        (init defaultNode False) =
       Some \<lparr>final = (init defaultNode False)
                    \<lparr>node := defaultNode\<lparr>boundingBox := mkBoundingBox [3, 1, 4, 10, 20, 30, 2, 2, 5],
                                         automaticBBoxValid := True\<rparr>,
                     stopFlag := True, startTime := Some 100\<rparr>,
             uncaught = None,
             calls = [UpdateCall, WaitTimeout, UpdateCall, WaitStopped, IsRunningCall, UpdateCall]\<rparr>"
proof -
  let ?f = "\<lparr>mtime = 101, content = nine\<rparr>"
  let ?w = "stopsAt 1 True (appears 2 ?f)"
  let ?th = "init defaultNode False :: int BoundingBoxThread"
  have a: "\<not> checkOnce ?th" and b: "\<not> stopFlag ?th"
    by (simp_all add: init_def)
  have c: "quiet ?w (now ?w) 1"
    by (simp add: stopsAt_def appears_def idle_def ready_def)
  have d: "\<not> ready (now ?w) (fileAt ?w 1)"
    by (simp add: stopsAt_def appears_def idle_def ready_def)
  have e: "0 < stopCalls ?w 1"
    by (simp add: stopsAt_def)
  have f: "parentRunning ?w = Inr True"
    by (simp add: stopsAt_def)
  have g: "updateBoundingBox float_of_digits (stopRequest (?th\<lparr>startTime := Some (now ?w)\<rparr>))
             (fileAt ?w (Suc 1)) =
           (?th\<lparr>node := defaultNode\<lparr>boundingBox := mkBoundingBox [3, 1, 4, 10, 20, 30, 2, 2, 5],
                                      automaticBBoxValid := True\<rparr>,
                 stopFlag := True, startTime := Some 100\<rparr>, Inr True)"
    using update_applied [where flt = float_of_digits and f = ?f and st = 100
        and data = "[3, 1, 4, 10, 20, 30, 2, 2, 5]"
        and th = "stopRequest (?th\<lparr>startTime := Some 100\<rparr>)"]
    by (simp add: stopRequest_def init_def shape_default floats_nine stopsAt_def appears_def
        idle_def)
  from stop_during_wait [where flt = float_of_digits, OF a b c d e f] g a b c d e f
  show ?thesis by simp
qed

lemma iteration_checkOnce:
  assumes "checkOnce th"
  shows "iteration flt w k th =
     (case updateBoundingBox flt th (fileAt w k) of
        (th1, res) \<Rightarrow>
          Done \<lparr>final = th1, uncaught = (case res of Inl e \<Rightarrow> handler e | Inr b \<Rightarrow> None),
                calls = [UpdateCall]\<rparr>)"
proof -
  have "checkOnce (fst (updateBoundingBox flt th obs))" for obs
    using assms
    by (auto simp: updateBoundingBox_def split: option.splits sum.splits prod.splits)
  from this [of "fileAt w k"] show ?thesis
    by (auto simp: iteration_def split: prod.splits sum.splits)
qed

text \<open>
  Claim C6. With \<^verbatim>\<open>checkOnce\<close>, \<^verbatim>\<open>run\<close> calls \<^verbatim>\<open>updateBoundingBox\<close> exactly once and ends, in
  every world: there is no second check, no wait and no reading of the stop flag. The
  baseline is the number \<open>-1\<close> and not the time of the start, so what \<^verbatim>\<open>run\<close> does is the
  same whatever the clock says, and a file that is already there is accepted whatever its
  age: with 9 valid tokens it is applied by that one check. Modification times are time
  stamps counted from the epoch; the proof uses only that they are not below \<open>-1\<close>.
\<close>

theorem checkOnce_single_check:
  assumes "checkOnce th"
  shows "(\<exists>r. run flt w th = Some r \<and> calls r = [UpdateCall]
              \<and> final r = fst (updateBoundingBox flt (th\<lparr>startTime := Some (- 1)\<rparr>) (fileAt w 0)))
     \<and> run flt (w\<lparr>now := t\<rparr>) th = run flt w th
     \<and> (\<forall>f vs. shape (boundingBox (node th)) = boundingBoxDesc
               \<and> fileAt w 0 = Some f \<and> - 1 \<le> mtime f
               \<and> map_float flt (splitlines (strip (content f))) = Inr vs \<and> length vs = 9
           \<longrightarrow> run flt w th =
                 Some \<lparr>final = th\<lparr>node := (node th)\<lparr>boundingBox := mkBoundingBox vs,
                                                       automaticBBoxValid := True\<rparr>,
                                   startTime := Some (- 1)\<rparr>,
                       uncaught = None,
                       calls = [UpdateCall]\<rparr>)"
proof -
  let ?th = "th\<lparr>startTime := Some (- 1)\<rparr>"
  obtain th1 res where u: "updateBoundingBox flt ?th (fileAt w 0) = (th1, res)"
    by (cases "updateBoundingBox flt ?th (fileAt w 0)")
  have it: "iteration flt v 0 ?th =
      Done \<lparr>final = th1, uncaught = (case res of Inl e \<Rightarrow> handler e | Inr b \<Rightarrow> None),
            calls = [UpdateCall]\<rparr>" if "fileAt v = fileAt w" for v
    using assms u that by (simp add: iteration_checkOnce)
  have rv: "run flt v th =
      Some \<lparr>final = th1, uncaught = (case res of Inl e \<Rightarrow> handler e | Inr b \<Rightarrow> None),
            calls = [UpdateCall]\<rparr>" if "fileAt v = fileAt w" for v
    using run_loop_Done [OF it [OF that], of "[]"] assms by (simp add: run_def)
  have r: "run flt w th =
      Some \<lparr>final = th1, uncaught = (case res of Inl e \<Rightarrow> handler e | Inr b \<Rightarrow> None),
            calls = [UpdateCall]\<rparr>"
    by (rule rv) simp
  with u have 1: "\<exists>r. run flt w th = Some r \<and> calls r = [UpdateCall]
              \<and> final r = fst (updateBoundingBox flt ?th (fileAt w 0))"
    by simp
  have 2: "run flt (w\<lparr>now := t\<rparr>) th = run flt w th"
    using rv [of "w\<lparr>now := t\<rparr>"] r by simp
  have 3: "run flt w th =
        Some \<lparr>final = th\<lparr>node := (node th)\<lparr>boundingBox := mkBoundingBox vs,
                                              automaticBBoxValid := True\<rparr>,
                          startTime := Some (- 1)\<rparr>,
              uncaught = None, calls = [UpdateCall]\<rparr>"
    if h: "shape (boundingBox (node th)) = boundingBoxDesc" "fileAt w 0 = Some f" "- 1 \<le> mtime f"
      "map_float flt (splitlines (strip (content f))) = Inr vs" "length vs = 9" for f vs
  proof -
    have "updateBoundingBox flt ?th (Some f) =
       (?th\<lparr>node := (node ?th)\<lparr>boundingBox := mkBoundingBox vs, automaticBBoxValid := True\<rparr>\<rparr>,
        Inr True)"
      using h by (intro update_applied [where st = "- 1"]) auto
    with u h(2) r show ?thesis by auto
  qed
  from 1 2 3 show ?thesis by blast
qed

theorem checkOnce_single_check_witness:
  "checkOnce (init defaultNode True)
   \<and> shape (boundingBox (node (init defaultNode True))) = boundingBoxDesc
   \<and> fileAt (appears 0 \<lparr>mtime = 3, content = nine\<rparr>) 0 = Some \<lparr>mtime = 3, content = nine\<rparr>
   \<and> - 1 \<le> mtime \<lparr>mtime = 3, content = nine\<rparr>
   \<and> mtime \<lparr>mtime = 3, content = nine\<rparr> < now (appears 0 \<lparr>mtime = 3, content = nine\<rparr>)
   \<and> map_float float_of_digits (splitlines (strip (content \<lparr>mtime = 3, content = nine\<rparr>)))
        = Inr [3, 1, 4, 10, 20, 30, 2, 2, 5]
   \<and> length [3, 1, 4, 10, 20, 30, 2, 2, 5 :: int] = 9
   \<and> run float_of_digits (appears 0 \<lparr>mtime = 3, content = nine\<rparr>) (init defaultNode True) =
       Some \<lparr>final = (init defaultNode True)
                    \<lparr>node := defaultNode\<lparr>boundingBox := mkBoundingBox [3, 1, 4, 10, 20, 30, 2, 2, 5],
                                         automaticBBoxValid := True\<rparr>,
                     startTime := Some (- 1)\<rparr>,
             uncaught = None,
             calls = [UpdateCall]\<rparr>"
proof -
  let ?f = "\<lparr>mtime = 3, content = nine\<rparr>"
  let ?w = "appears 0 ?f"
  let ?th = "init defaultNode True :: int BoundingBoxThread"
  have a: "checkOnce ?th"
    by (simp add: init_def)
  have b: "shape (boundingBox (node ?th)) = boundingBoxDesc"
    by (simp add: init_def shape_default)
  have c: "fileAt ?w 0 = Some ?f"
    by (simp add: appears_def)
  have d: "- 1 \<le> mtime ?f" and d': "mtime ?f < now ?w"
    by (simp_all add: appears_def idle_def)
  have e: "map_float float_of_digits (splitlines (strip (content ?f)))
      = Inr [3, 1, 4, 10, 20, 30, 2, 2, 5]"
    by (simp add: floats_nine)
  have f: "length [3, 1, 4, 10, 20, 30, 2, 2, 5 :: int] = 9"
    by simp
  from checkOnce_single_check [where flt = float_of_digits and w = ?w, OF a]
  have "shape (boundingBox (node ?th)) = boundingBoxDesc
               \<and> fileAt ?w 0 = Some ?f \<and> - 1 \<le> mtime ?f
               \<and> map_float float_of_digits (splitlines (strip (content ?f)))
                    = Inr [3, 1, 4, 10, 20, 30, 2, 2, 5]
               \<and> length [3, 1, 4, 10, 20, 30, 2, 2, 5 :: int] = 9
           \<longrightarrow> run float_of_digits ?w ?th =
                 Some \<lparr>final = ?th\<lparr>node := (node ?th)\<lparr>boundingBox := mkBoundingBox [3, 1, 4, 10, 20, 30, 2, 2, 5],
                                                       automaticBBoxValid := True\<rparr>,
                                   startTime := Some (- 1)\<rparr>,
                       uncaught = None,
                       calls = [UpdateCall]\<rparr>"
    by blast
  with a b c d d' e f show ?thesis
    by (simp add: init_def)
qed

subsection \<open>Claims about \<^verbatim>\<open>stopRequest\<close>\<close>

lemma repeated_same_stops: "same_stops (repeated m w) w"
  by (auto simp: same_stops_def repeated_def)

lemma run_two_stop_requests:
  "run float_of_digits (repeated 1 (stopsAt 0 True idle)) (init defaultNode False) =
     Some \<lparr>final = (init defaultNode False)\<lparr>stopFlag := True, startTime := Some 100\<rparr>,
           uncaught = None,
           calls = [UpdateCall, WaitStopped, IsRunningCall, UpdateCall]\<rparr>"
proof -
  let ?th = "(init defaultNode False)\<lparr>startTime := Some 100\<rparr>"
  let ?w = "repeated 1 (stopsAt 0 True idle)"
  have "iteration float_of_digits ?w 0 ?th =
     Done \<lparr>final = (init defaultNode False)\<lparr>stopFlag := True, startTime := Some 100\<rparr>,
           uncaught = None,
           calls = [UpdateCall, WaitStopped, IsRunningCall, UpdateCall]\<rparr>"
    by (simp add: iteration_def updateBoundingBox_def wait_flag repeated_def stopsAt_def idle_def
        init_def stopRequest_def)
  from run_loop_Done [OF this, of "[]"] show ?thesis
    by (simp add: run_def init_def repeated_def stopsAt_def idle_def)
qed

text \<open>
  Claim C8. \<^verbatim>\<open>stopRequest\<close> is idempotent. Calling it twice on any thread object gives the
  state that one call gives, and it cannot fail. Making every call of it several times in a
  row does not change what \<^verbatim>\<open>run\<close> does. Every run that ends has made at most one final
  check, that is at most one call of \<^verbatim>\<open>updateBoundingBox\<close> after a wait has returned true.
  Called on a thread that has ended, it sets the flag and leaves the node as it is.
\<close>

theorem stopRequest_idempotent:
  "stopRequest (stopRequest th) = stopRequest th
   \<and> run flt (repeated m w) th = run flt w th
   \<and> (\<forall>r. run flt w th = Some r \<longrightarrow>
          final_checks (calls r) \<le> 1 \<and> node (stopRequest (final r)) = node (final r))"
proof -
  have 1: "stopRequest (stopRequest th) = stopRequest th"
    by (simp add: stopRequest_def)
  have "now (repeated m w) = now w"
    by (simp add: repeated_def)
  then have 2: "run flt (repeated m w) th = run flt w th"
    using run_loop_same_stops [OF repeated_same_stops, of flt m w] by (simp add: run_def)
  have 3: "final_checks (calls r) \<le> 1 \<and> node (stopRequest (final r)) = node (final r)"
    if "run flt w th = Some r" for r
    using final_checks_le_1 [OF that] by (simp add: stopRequest_def)
  from 1 2 3 show ?thesis by blast
qed

theorem stopRequest_idempotent_witness:
  "run float_of_digits (repeated 1 (stopsAt 0 True idle)) (init defaultNode False) =
     Some \<lparr>final = (init defaultNode False)\<lparr>stopFlag := True, startTime := Some 100\<rparr>,
           uncaught = None,
           calls = [UpdateCall, WaitStopped, IsRunningCall, UpdateCall]\<rparr>
   \<and> run float_of_digits (stopsAt 0 True idle) (init defaultNode False) =
     Some \<lparr>final = (init defaultNode False)\<lparr>stopFlag := True, startTime := Some 100\<rparr>,
           uncaught = None,
           calls = [UpdateCall, WaitStopped, IsRunningCall, UpdateCall]\<rparr>
   \<and> final_checks [UpdateCall, WaitStopped, IsRunningCall, UpdateCall] \<le> 1"
proof -
  let ?r = "\<lparr>final = (init defaultNode False)\<lparr>stopFlag := True, startTime := Some 100\<rparr>,
           uncaught = None,
           calls = [UpdateCall, WaitStopped, IsRunningCall, UpdateCall]\<rparr> :: int run_result"
  note t = stopRequest_idempotent [where flt = float_of_digits and m = 1
      and w = "stopsAt 0 True idle" and th = "init defaultNode False"]
  from t have e: "run float_of_digits (repeated 1 (stopsAt 0 True idle)) (init defaultNode False)
      = run float_of_digits (stopsAt 0 True idle) (init defaultNode False)"
    by blast
  with run_two_stop_requests
  have r: "run float_of_digits (stopsAt 0 True idle) (init defaultNode False) = Some ?r"
    by simp
  with t have "final_checks (calls ?r) \<le> 1" by blast
  with r e show ?thesis by simp
qed

subsection \<open>Claims about \<^verbatim>\<open>boundingBoxMonitor\<close>\<close>

lemma run_teardown_returns: "\<exists>r. run flt (teardown w d) th = Some r"
proof -
  have "0 < stopCalls (teardown w d) d"
    by (simp add: teardown_def)
  from run_loop_stops [OF this, of 0] show ?thesis
    unfolding run_def by blast
qed

text \<open>
  Claim C3. When the guard creates a thread (the bounding box is not set by hand), the
  thread is started before the wrapped operation begins, and \<^verbatim>\<open>stopRequest\<close> and then
  \<^verbatim>\<open>join\<close> are called on it after the wrapped operation has ended, whatever its outcome:
  a returned value, a raised exception or a cancellation. \<^verbatim>\<open>join\<close> returns, since the stop
  request ends \<^verbatim>\<open>run\<close>, and the guard passes on the outcome of the wrapped operation.
  \<^verbatim>\<open>Meshing.processChunk\<close> is the instance with \<^verbatim>\<open>checkOnce\<close> false.
\<close>

theorem guard_brackets_wrapped_operation:
  assumes "\<not> useBoundingBox nd"
  shows "\<exists>g th r. boundingBoxMonitor flt w d nd once out = Some (g, out)
     \<and> trace g = [ThreadStarted, WrappedOperation, StopRequestCalled, JoinReturned]
     \<and> bboxThread g = Some th \<and> stopFlag th
     \<and> watcher g = Some r \<and> run flt (teardown w d) (init nd once) = Some r"
proof -
  obtain r where r: "run flt (teardown w d) (init nd once) = Some r"
    using run_teardown_returns by blast
  with assms show ?thesis
    by (simp add: boundingBoxMonitor_def try_finally_def try_block_def finally_block_def
        stopRequest_def)
qed

theorem guard_brackets_wrapped_operation_witness:
  "\<not> useBoundingBox defaultNode
   \<and> (\<exists>g th r. boundingBoxMonitor float_of_digits idle 3 defaultNode False
                  (Raised KeyboardInterrupt :: unit outcome)
                = Some (g, Raised KeyboardInterrupt)
     \<and> trace g = [ThreadStarted, WrappedOperation, StopRequestCalled, JoinReturned]
     \<and> bboxThread g = Some th \<and> stopFlag th
     \<and> watcher g = Some r
     \<and> run float_of_digits (teardown idle 3) (init defaultNode False) = Some r)"
proof -
  have a: "\<not> useBoundingBox defaultNode"
    by (simp add: defaultNode_def)
  from guard_brackets_wrapped_operation [where flt = float_of_digits, OF a] a
  show ?thesis by blast
qed

text \<open>
  Claim C7. When the node is configured to take the bounding box set by hand
  (\<^verbatim>\<open>useBoundingBox\<close> is true), the guard creates no thread: it yields \<^verbatim>\<open>None\<close>, calls neither
  \<^verbatim>\<open>stopRequest\<close> nor \<^verbatim>\<open>join\<close>, and leaves the node as it was, whatever is on disk.
\<close>

theorem manual_bounding_box_no_watcher:
  assumes "useBoundingBox nd"
  shows "boundingBoxMonitor flt w d nd once out =
     Some (\<lparr>bboxThread = None, gnode = nd, watcher = None, trace = [WrappedOperation]\<rparr>, out)"
  using assms
  by (simp add: boundingBoxMonitor_def try_finally_def try_block_def finally_block_def)

theorem manual_bounding_box_no_watcher_witness:
  "useBoundingBox (defaultNode\<lparr>useBoundingBox := True\<rparr>)
   \<and> boundingBoxMonitor float_of_digits (appears 0 \<lparr>mtime = 101, content = nine\<rparr>) 3
       (defaultNode\<lparr>useBoundingBox := True\<rparr>) False (Returned ()) =
     Some (\<lparr>bboxThread = None, gnode = defaultNode\<lparr>useBoundingBox := True\<rparr>, watcher = None,
            trace = [WrappedOperation]\<rparr>, Returned ())"
proof -
  have a: "useBoundingBox (defaultNode\<lparr>useBoundingBox := True\<rparr>)"
    by simp
  from manual_bounding_box_no_watcher [where flt = float_of_digits, OF a] a
  show ?thesis by blast
qed

end
